theory Spec2Isabelle
  imports Complex_Main "HOL-Library.Word"
begin

section \<open>Environment wrappers (evorl/envs/wrappers/training_wrapper.py)\<close>

text \<open>
  Floating-point scalars (\<open>reward\<close>, \<open>done\<close>, \<open>termination\<close>, \<open>truncation\<close>, returns)
  are idealised as reals; flags hold the values 0 and 1. The step counter is an int32 and
  is a 32-bit word read as a signed number. A Python exception is the result \<open>None\<close>.
  The fields \<open>done\<close> and \<open>termination\<close> are named \<open>done_flag\<close> and \<open>termination_flag\<close>
  (both words are reserved in Isabelle).

  \<open>info\<close> is a free-form dictionary in the source. The keys \<open>steps\<close>, \<open>termination\<close>
  and \<open>truncation\<close> are written by every reset of the episode wrapper and are plain
  fields here; the keys that exist only under a flag or under one wrapper (\<open>ori_obs\<close>,
  \<open>episode_return\<close>, \<open>autoreset\<close>) are optional fields, \<open>None\<close> when the key is absent.
\<close>

record 'o env_info =
  steps :: "32 word"
  termination_flag :: real
  truncation :: real
  ori_obs :: "'o option"
  episode_return :: "real option"
  autoreset :: "real option"

record 'k env_internal =
  reset_key :: "'k option"

record ('k, 'e, 'o) EnvState =
  env_state :: 'e
  obs :: 'o
  reward :: real
  done_flag :: real
  info :: "'o env_info"
  internal :: "'k env_internal"

text \<open>The wrapped environment: any object with \<open>reset(key)\<close> and \<open>step(state, action)\<close>.\<close>

record ('k, 'a, 's) Env =
  env_reset :: "'k \<Rightarrow> 's option"
  env_step :: "'s \<Rightarrow> 'a \<Rightarrow> 's option"

record EpisodeWrapper =
  episode_length :: int
  record_ori_obs :: bool
  record_episode_return :: bool
  discount :: real

text \<open>\<open>x.astype(jnp.int32)\<close> of a float: truncation towards zero.\<close>

definition float_to_int :: "real \<Rightarrow> int" where
  "float_to_int r = (if 0 \<le> r then \<lfloor>r\<rfloor> else \<lceil>r\<rceil>)"

definition astype_int32 :: "real \<Rightarrow> 32 word" where
  "astype_int32 r = word_of_int (float_to_int r)"

definition EpisodeWrapper_reset ::
  "EpisodeWrapper \<Rightarrow> ('k, 'a, ('k, 'e, 'o) EnvState) Env \<Rightarrow> 'o \<Rightarrow> 'k
    \<Rightarrow> ('k, 'e, 'o) EnvState option" where
  "EpisodeWrapper_reset w env zeros_like_obs key =
     (case env_reset env key of
        None \<Rightarrow> None
      | Some state \<Rightarrow>
          let info1 = (info state)\<lparr>steps := 0, termination_flag := 0, truncation := 0\<rparr>;
              info2 = (if record_ori_obs w then info1\<lparr>ori_obs := Some zeros_like_obs\<rparr> else info1);
              info3 = (if record_episode_return w then info2\<lparr>episode_return := Some 0\<rparr> else info2)
          in Some (state\<lparr>info := info3\<rparr>))"

text \<open>\<open>EpisodeWrapper._step\<close>, lines 64-107.\<close>

definition EpisodeWrapper_step ::
  "EpisodeWrapper \<Rightarrow> ('k, 'a, ('k, 'e, 'o) EnvState) Env \<Rightarrow> ('k, 'e, 'o) EnvState \<Rightarrow> 'a
    \<Rightarrow> ('k, 'e, 'o) EnvState option" where
  "EpisodeWrapper_step w env state0 action =
     (let prev_done = done_flag state0;
          steps0 = steps (info state0) * astype_int32 (1 - prev_done);
          episode_return0 =
            (if record_episode_return w
             then map_option (\<lambda>r. r * (1 - prev_done)) (episode_return (info state0))
             else Some 0)
      in case episode_return0 of
           None \<Rightarrow> None
         | Some er0 \<Rightarrow>
            (case env_step env state0 action of
               None \<Rightarrow> None
             | Some state \<Rightarrow>
                 let steps1 = steps0 + 1;
                     done1 = (if episode_length w \<le> sint steps1 then 1 else done_flag state);
                     info1 = (info state)\<lparr>
                       steps := steps1,
                       termination_flag := done_flag state,
                       truncation :=
                         (if episode_length w \<le> sint steps1 then 1 - done_flag state else 0)\<rparr>;
                     info2 = (if record_ori_obs w then info1\<lparr>ori_obs := Some (obs state)\<rparr>
                              else info1);
                     info3 =
                       (if record_episode_return w
                        then info2\<lparr>episode_return := Some
                          (if discount w = 1 then er0 + reward state
                           else er0 + power_int (discount w) (sint steps1 - 1) * reward state)\<rparr>
                        else info2)
                 in Some (state\<lparr>done_flag := done1, info := info3\<rparr>)))"

text \<open>
  \<open>OneEpisodeWrapper\<close>: an \<open>EpisodeWrapper\<close> built with \<open>record_episode_return=False\<close>
  (and the default discount 1.0), whose \<open>step\<close> is
  \<open>jax.lax.cond(state.done, self._dummy_step, self._step, state, action)\<close>.
  A numeric predicate of \<open>lax.cond\<close> is true when it is not zero.

  \<open>jax.lax.cond\<close> traces both branch functions on its operands, whatever the predicate
  is, and requires their results to have the same tree structure: the step raises when
  \<open>_step\<close> raises, and when the state \<open>_step\<close> returns does not have the keys of the
  state \<open>_dummy_step\<close> returns (\<open>_step\<close> writes \<open>info.ori_obs\<close> under \<open>record_ori_obs\<close>,
  and the inner env may add or drop keys). Of the tree structure, the presence of the
  optional keys of \<open>info\<close> and \<open>_internal\<close> is what the states here can differ in; the
  shapes of \<open>env_state\<close> and \<open>obs\<close> are not represented.
\<close>

definition OneEpisodeWrapper :: "int \<Rightarrow> bool \<Rightarrow> EpisodeWrapper" where
  "OneEpisodeWrapper len rec_ori_obs =
     \<lparr>episode_length = len, record_ori_obs = rec_ori_obs,
      record_episode_return = False, discount = 1\<rparr>"

definition EnvState_same_structure ::
  "('k, 'e, 'o) EnvState \<Rightarrow> ('k, 'e, 'o) EnvState \<Rightarrow> bool" where
  "EnvState_same_structure x y =
     ((ori_obs (info x) = None) = (ori_obs (info y) = None)
      \<and> (episode_return (info x) = None) = (episode_return (info y) = None)
      \<and> (autoreset (info x) = None) = (autoreset (info y) = None)
      \<and> (reset_key (internal x) = None) = (reset_key (internal y) = None))"

definition dummy_step :: "('k, 'e, 'o) EnvState \<Rightarrow> 'a \<Rightarrow> ('k, 'e, 'o) EnvState option" where
  "dummy_step state action = Some state"

definition OneEpisodeWrapper_step ::
  "EpisodeWrapper \<Rightarrow> ('k, 'a, ('k, 'e, 'o) EnvState) Env \<Rightarrow> ('k, 'e, 'o) EnvState \<Rightarrow> 'a
    \<Rightarrow> ('k, 'e, 'o) EnvState option" where
  "OneEpisodeWrapper_step w env state action =
     (case (dummy_step state action, EpisodeWrapper_step w env state action) of
        (Some true_out, Some false_out) \<Rightarrow>
          if \<not> EnvState_same_structure true_out false_out then None
          else if done_flag state \<noteq> 0 then Some true_out
          else Some false_out
      | _ \<Rightarrow> None)"

text \<open>
  \<open>VmapWrapper.step\<close>: the per-env step mapped over the bank (\<open>jax.vmap\<close> or
  \<open>jax.lax.map\<close>, which compute the same values). The batched state is the list of the
  per-env states; mapping over banks of different sizes is an error.
\<close>

definition VmapWrapper_step ::
  "('s \<Rightarrow> 'a \<Rightarrow> 's option) \<Rightarrow> 's list \<Rightarrow> 'a list \<Rightarrow> 's list option" where
  "VmapWrapper_step step1 states actions =
     (if length states \<noteq> length actions then None
      else those (map2 step1 states actions))"

text \<open>Running a single env through a sequence of actions; an exception stops the run.\<close>

fun run_steps :: "('s \<Rightarrow> 'a \<Rightarrow> 's option) \<Rightarrow> 's \<Rightarrow> 'a list \<Rightarrow> 's option" where
  "run_steps step1 s [] = Some s"
| "run_steps step1 s (a # as) =
     (case step1 s a of None \<Rightarrow> None | Some s' \<Rightarrow> run_steps step1 s' as)"

text \<open>
  \<open>VmapEnvPoolAutoResetWrapper\<close>, lines 306-363. A key argument is a single key
  (\<open>key.ndim <= 1\<close>), split into \<open>num_envs\<close> keys, or a batch of keys whose shape is
  asserted. \<open>jax.random.split\<close> and the repository's \<open>rng_split\<close> (which splits every key
  of a batch in two) are parameters.
\<close>

datatype 'k key_arg = Single 'k | Batched "'k list"

record 'k rng =
  random_split :: "'k \<Rightarrow> nat \<Rightarrow> 'k list"
  rng_split :: "'k \<Rightarrow> 'k \<times> 'k"

definition batch_keys :: "'k rng \<Rightarrow> nat \<Rightarrow> 'k key_arg \<Rightarrow> 'k list option" where
  "batch_keys g num_envs key =
     (case key of
        Single k \<Rightarrow> Some (random_split g k num_envs)
      | Batched ks \<Rightarrow> if length ks = num_envs then Some ks else None)"

definition VmapEnvPoolAutoResetWrapper_reset ::
  "'k rng \<Rightarrow> ('k, 'a, ('k, 'e, 'o) EnvState) Env \<Rightarrow> nat \<Rightarrow> 'k key_arg
    \<Rightarrow> ('k, 'e, 'o) EnvState list option" where
  "VmapEnvPoolAutoResetWrapper_reset g env num_envs key =
     (case batch_keys g num_envs key of
        None \<Rightarrow> None
      | Some ks \<Rightarrow>
          let reset_keys = map (\<lambda>k. fst (rng_split g k)) ks;
              keys = map (\<lambda>k. snd (rng_split g k)) ks
          in case those (map (env_reset env) keys) of
               None \<Rightarrow> None
             | Some states \<Rightarrow>
                 Some (map2 (\<lambda>s rk.
                         s\<lparr>info := (info s)\<lparr>autoreset := Some 0\<rparr>,
                           internal := (internal s)\<lparr>reset_key := Some rk\<rparr>\<rparr>)
                       states reset_keys))"

text \<open>\<open>_where_done(x, y)\<close> on every leaf of env \<open>i\<close>: the whole per-env state is selected.\<close>

definition where_done :: "real \<Rightarrow> 's \<Rightarrow> 's \<Rightarrow> 's" where
  "where_done d x y = (if d \<noteq> 0 then x else y)"

definition VmapEnvPoolAutoResetWrapper_step ::
  "'k rng \<Rightarrow> ('k, 'a, ('k, 'e, 'o) EnvState) Env \<Rightarrow> nat \<Rightarrow> ('k, 'e, 'o) EnvState list
    \<Rightarrow> 'a list \<Rightarrow> ('k, 'e, 'o) EnvState list option" where
  "VmapEnvPoolAutoResetWrapper_step g env num_envs state action =
     (let autoreset_flags = map done_flag state
      in case those (map (\<lambda>s. reset_key (internal s)) state) of
           None \<Rightarrow> None
         | Some rkeys \<Rightarrow>
            (case VmapEnvPoolAutoResetWrapper_reset g env num_envs (Batched rkeys) of
               None \<Rightarrow> None
             | Some reset_state \<Rightarrow>
                (case VmapWrapper_step (env_step env) state action of
                   None \<Rightarrow> None
                 | Some stepped \<Rightarrow>
                     let new_state =
                           map2 (\<lambda>s d. s\<lparr>info := (info s)\<lparr>autoreset := Some d\<rparr>\<rparr>)
                             stepped autoreset_flags
                     in Some (map (\<lambda>(d, x, y). where_done d x y)
                                (zip autoreset_flags (zip reset_state new_state))))))"

datatype AutoresetMode = NORMAL | FAST | DISABLED | ENVPOOL

definition AutoresetMode_value :: "AutoresetMode \<Rightarrow> string" where
  "AutoresetMode_value m =
     (case m of NORMAL \<Rightarrow> ''normal'' | FAST \<Rightarrow> ''fast''
      | DISABLED \<Rightarrow> ''disabled'' | ENVPOOL \<Rightarrow> ''envpool'')"

section \<open>Parameter trees and the Polyak update (evorl/utils/rl_toolkits.py)\<close>

text \<open>
  A parameter tree is a nested dictionary whose leaves are tensors. A leaf is stored as the
  list of its entries. \<open>jtu.tree_map\<close> over two trees raises when their structures differ;
  an elementwise operation on two leaves whose shapes differ is an error here as well
  (the source would try to broadcast them; identically shaped trees never reach that case).
\<close>

datatype 'a ptree = Leaf 'a | Node "(string \<times> 'a ptree) list"

fun tree_map2 :: "('a \<Rightarrow> 'a \<Rightarrow> 'a option) \<Rightarrow> 'a ptree \<Rightarrow> 'a ptree \<Rightarrow> 'a ptree option"
  and tree_map2_list :: "('a \<Rightarrow> 'a \<Rightarrow> 'a option) \<Rightarrow> (string \<times> 'a ptree) list
        \<Rightarrow> (string \<times> 'a ptree) list \<Rightarrow> (string \<times> 'a ptree) list option" where
  "tree_map2 f (Leaf x) (Leaf y) = map_option Leaf (f x y)"
| "tree_map2 f (Node xs) (Node ys) = map_option Node (tree_map2_list f xs ys)"
| "tree_map2 f (Leaf x) (Node ys) = None"
| "tree_map2 f (Node xs) (Leaf y) = None"
| "tree_map2_list f [] [] = Some []"
| "tree_map2_list f (kx # xs) (ky # ys) =
     (if fst kx \<noteq> fst ky then None
      else case tree_map2 f (snd kx) (snd ky) of
             None \<Rightarrow> None
           | Some z \<Rightarrow> map_option ((#) (fst kx, z)) (tree_map2_list f xs ys))"
| "tree_map2_list f [] (ky # ys) = None"
| "tree_map2_list f (kx # xs) [] = None"

text \<open>Two trees are identically structured: same keys in the same order, same leaf shapes.\<close>

fun same_structure :: "'b list ptree \<Rightarrow> 'b list ptree \<Rightarrow> bool"
  and same_structure_list :: "(string \<times> 'b list ptree) list
        \<Rightarrow> (string \<times> 'b list ptree) list \<Rightarrow> bool" where
  "same_structure (Leaf x) (Leaf y) = (length x = length y)"
| "same_structure (Node xs) (Node ys) = same_structure_list xs ys"
| "same_structure (Leaf x) (Node ys) = False"
| "same_structure (Node xs) (Leaf y) = False"
| "same_structure_list [] [] = True"
| "same_structure_list (kx # xs) (ky # ys) =
     (fst kx = fst ky \<and> same_structure (snd kx) (snd ky) \<and> same_structure_list xs ys)"
| "same_structure_list [] (ky # ys) = False"
| "same_structure_list (kx # xs) [] = False"

text \<open>The leaves of a tree in traversal order.\<close>

fun leaves :: "'a ptree \<Rightarrow> 'a list"
  and leaves_list :: "(string \<times> 'a ptree) list \<Rightarrow> 'a list" where
  "leaves (Leaf x) = [x]"
| "leaves (Node xs) = leaves_list xs"
| "leaves_list [] = []"
| "leaves_list (kx # xs) = leaves (snd kx) @ leaves_list xs"

text \<open>
  \<open>soft_target_update\<close>, lines 107-124: the leaf function is
  \<open>lambda target, source: tau * source + (1 - tau) * target\<close>, entry by entry.
\<close>

definition polyak_entries :: "real \<Rightarrow> real list \<Rightarrow> real list \<Rightarrow> real list" where
  "polyak_entries tau target source =
     map2 (\<lambda>t s. tau * s + (1 - tau) * t) target source"

definition polyak_leaf :: "real \<Rightarrow> real list \<Rightarrow> real list \<Rightarrow> real list option" where
  "polyak_leaf tau target source =
     (if length target = length source then Some (polyak_entries tau target source)
      else None)"

definition soft_target_update ::
  "real list ptree \<Rightarrow> real list ptree \<Rightarrow> real \<Rightarrow> real list ptree option" where
  "soft_target_update target_params source_params tau =
     tree_map2 (polyak_leaf tau) target_params source_params"

section \<open>The TD3 update step (evorl/algorithms/contrib/erl_origin.py, \<open>_build_rl_update_fn\<close>)\<close>

record ('ap, 'cp) TD3NetworkParams =
  actor_params :: 'ap
  critic_params :: 'cp
  target_actor_params :: 'ap
  target_critic_params :: 'cp

record ('ps, 'o) AgentState =
  params :: 'ps
  obs_preprocessor_state :: 'o

record 'os OptState =
  actor :: 'os
  critic :: 'os

type_synonym 'o td3_agent_state =
  "((real list ptree, real list ptree) TD3NetworkParams, 'o) AgentState"

text \<open>
  \<open>critic_update_fn\<close> and \<open>actor_update_fn\<close> are built by \<open>agent_gradient_update\<close> (optax
  and \<open>evorl.distributed\<close>, outside the sources at hand) and are parameters: each takes
  \<open>(opt_state, agent_state, sample_batch, key)\<close> and returns
  \<open>((loss, loss_dict), agent_state, opt_state)\<close>. \<open>jax.random.split\<close> is the
  \<open>random_split\<close> of the key operations.
\<close>

record ('k, 'o, 'os, 'b, 'l, 'ld) td3_update_ops = "'k rng" +
  critic_update_fn :: "'os \<Rightarrow> 'o td3_agent_state \<Rightarrow> 'b \<Rightarrow> 'k
     \<Rightarrow> ('l \<times> 'ld) \<times> 'o td3_agent_state \<times> 'os"
  actor_update_fn :: "'os \<Rightarrow> 'o td3_agent_state \<Rightarrow> 'b \<Rightarrow> 'k
     \<Rightarrow> ('l \<times> 'ld) \<times> 'o td3_agent_state \<times> 'os"

record td3_config =
  actor_update_interval :: int
  tau :: real

text \<open>
  The \<open>jax.lax.scan\<close> of \<open>_update_critic_fn\<close> over \<open>critic_sample_batches\<close>, lines 839-863.
  Unpacking a split into the wrong number of keys raises.
\<close>

fun update_critic_scan ::
  "('k, 'o, 'os, 'b, 'l, 'ld) td3_update_ops \<Rightarrow> 'k \<times> 'o td3_agent_state \<times> 'os \<Rightarrow> 'b list
    \<Rightarrow> ('k \<times> 'o td3_agent_state \<times> 'os) option" where
  "update_critic_scan ops carry [] = Some carry"
| "update_critic_scan ops (key, agent_state, critic_opt_state) (sample_batch # rest) =
     (case random_split ops key 2 of
        [key', critic_key] \<Rightarrow>
          (case critic_update_fn ops critic_opt_state agent_state sample_batch critic_key of
             (losses, agent_state', critic_opt_state') \<Rightarrow>
               update_critic_scan ops (key', agent_state', critic_opt_state') rest)
      | _ \<Rightarrow> None)"

text \<open>
  Lines 829-873 of \<open>_update_fn\<close>: the critic updates on all but the last minibatch, then
  the critic and the actor update on the last one. The result is the agent state before
  the target update, the two optimizer states and the losses of the last updates.
  \<open>x[-1]\<close> of an empty stack raises; a scan whose \<open>length\<close> differs from the stack raises.
\<close>

definition gradient_updates ::
  "td3_config \<Rightarrow> ('k, 'o, 'os, 'b, 'l, 'ld) td3_update_ops \<Rightarrow> 'o td3_agent_state
    \<Rightarrow> 'os OptState \<Rightarrow> 'b list \<Rightarrow> 'k
    \<Rightarrow> ('o td3_agent_state \<times> 'os \<times> 'os \<times> ('l \<times> 'ld) \<times> ('l \<times> 'ld)) option" where
  "gradient_updates config ops agent_state opt_state sample_batches key0 =
     (let critic_opt_state = critic opt_state;
          actor_opt_state = actor opt_state
      in case random_split ops key0 3 of
           [key, critic_key, actor_key] \<Rightarrow>
             if sample_batches = [] then None
             else
               let critic_sample_batches = butlast sample_batches;
                   last_sample_batch = last sample_batches;
                   scanned =
                     (if actor_update_interval config - 1 > 0
                      then (case random_split ops key 2 of
                              [key', critic_multiple_update_key] \<Rightarrow>
                                if int (length critic_sample_batches)
                                     \<noteq> actor_update_interval config - 1
                                then None
                                else map_option (\<lambda>(k, a, c). (a, c))
                                       (update_critic_scan ops
                                          (critic_multiple_update_key, agent_state,
                                           critic_opt_state)
                                          critic_sample_batches)
                            | _ \<Rightarrow> None)
                      else Some (agent_state, critic_opt_state))
               in (case scanned of
                     None \<Rightarrow> None
                   | Some (agent_state1, critic_opt_state1) \<Rightarrow>
                      (case critic_update_fn ops critic_opt_state1 agent_state1
                              last_sample_batch critic_key of
                         (critic_losses, agent_state2, critic_opt_state2) \<Rightarrow>
                          (case actor_update_fn ops actor_opt_state agent_state2
                                  last_sample_batch actor_key of
                             (actor_losses, agent_state3, actor_opt_state3) \<Rightarrow>
                               Some (agent_state3, critic_opt_state2, actor_opt_state3,
                                     critic_losses, actor_losses))))
         | _ \<Rightarrow> None)"

text \<open>
  \<open>_update_fn\<close>, lines 828-898: the gradient updates, then the Polyak update of the target
  actor and of the target critic (lines 875-891), written back with \<open>replace\<close>.
\<close>

definition update_fn ::
  "td3_config \<Rightarrow> ('k, 'o, 'os, 'b, 'l, 'ld) td3_update_ops \<Rightarrow> 'o td3_agent_state
    \<Rightarrow> 'os OptState \<Rightarrow> 'b list \<Rightarrow> 'k
    \<Rightarrow> (('o td3_agent_state \<times> 'os OptState) \<times> ('l \<times> 'l \<times> 'ld \<times> 'ld)) option" where
  "update_fn config ops agent_state0 opt_state sample_batches key =
     (case gradient_updates config ops agent_state0 opt_state sample_batches key of
        None \<Rightarrow> None
      | Some (agent_state, critic_opt_state, actor_opt_state,
              (critic_loss, critic_loss_dict), (actor_loss, actor_loss_dict)) \<Rightarrow>
          (case soft_target_update (target_actor_params (params agent_state))
                  (actor_params (params agent_state)) (tau config) of
             None \<Rightarrow> None
           | Some target_actor_params' \<Rightarrow>
              (case soft_target_update (target_critic_params (params agent_state))
                      (critic_params (params agent_state)) (tau config) of
                 None \<Rightarrow> None
               | Some target_critic_params' \<Rightarrow>
                   Some ((agent_state\<lparr>params := (params agent_state)\<lparr>
                            target_actor_params := target_actor_params',
                            target_critic_params := target_critic_params'\<rparr>\<rparr>,
                          opt_state\<lparr>actor := actor_opt_state, critic := critic_opt_state\<rparr>),
                         (critic_loss, actor_loss, critic_loss_dict, actor_loss_dict)))))"

section \<open>Episode lengths and replay-buffer insertion\<close>

text \<open>
  A rollout tensor of shape \<open>[T, B, ...]\<close> is the list of its \<open>T\<close> rows, each the list of
  the \<open>B\<close> per-env entries. The fields of a trajectory (\<open>obs\<close>, \<open>actions\<close>, ...) are
  selected by the same indices (\<open>jtu.tree_map\<close> applies one function to every field), so a
  trajectory is one such tensor whose entries are whole transitions.

  \<open>compute_episode_length\<close> (evorl/utils/rl_toolkits.py, lines 12-20):
  \<open>(1 - dones[:-1].astype(jnp.int32)).sum(axis=0) + 1\<close>. The int32 sums are bounded by
  the horizon and are integers here.
\<close>

definition compute_episode_length :: "real list list \<Rightarrow> int list" where
  "compute_episode_length dones =
     (case dones of
        [] \<Rightarrow> []
      | row # _ \<Rightarrow>
          map (\<lambda>i. sum_list (map (\<lambda>r. 1 - float_to_int (r ! i)) (butlast dones)) + 1)
            [0..<length row])"

text \<open>\<open>flatten_rollout_trajectory\<close>, lines 127-131: \<open>jax.lax.collapse(x, 0, 2)\<close>.\<close>

definition collapse :: "'a list list \<Rightarrow> 'a list" where
  "collapse x = concat x"

text \<open>
  \<open>ERLWorkflow._add_to_replay_buffer\<close> (erl_origin.py, lines 506-522):
  \<open>jnp.concatenate([x[:t, i] for i, t in enumerate(episode_lengths)], axis=0)\<close>.
  \<open>x[:t]\<close> is Python's slice (a negative bound counts from the end), an index beyond the
  last column is clamped by JAX, and concatenating an empty list of arrays raises.
\<close>

definition py_slice_to :: "int \<Rightarrow> 'a list \<Rightarrow> 'a list" where
  "py_slice_to t xs =
     (if 0 \<le> t then take (nat t) xs else take (length xs - nat (- t)) xs)"

definition jnp_index :: "'a list \<Rightarrow> nat \<Rightarrow> 'a" where
  "jnp_index row i = row ! min i (length row - 1)"

definition concat_valid :: "int list \<Rightarrow> 'a list list \<Rightarrow> 'a list option" where
  "concat_valid episode_lengths x =
     (if episode_lengths = [] then None
      else Some (concat (map (\<lambda>(i, t). map (\<lambda>row. jnp_index row i) (py_slice_to t x))
                          (enumerate 0 episode_lengths))))"

text \<open>The buffer's own \<open>add\<close> (flashbax) is the parameter \<open>rb_add\<close>.\<close>

definition add_to_replay_buffer ::
  "('rb \<Rightarrow> 'a list \<Rightarrow> 'rb) \<Rightarrow> 'rb \<Rightarrow> 'a list list \<Rightarrow> int list \<Rightarrow> 'rb option" where
  "add_to_replay_buffer rb_add replay_buffer_state trajectory episode_lengths =
     (case concat_valid episode_lengths trajectory of
        None \<Rightarrow> None
      | Some valid_trajectory \<Rightarrow> Some (rb_add replay_buffer_state valid_trajectory))"

text \<open>\<open>episode_lengths.flatten()\<close> of the \<open>[pop, env]\<close> metric, as \<open>step\<close> passes it.\<close>

definition flatten_lengths :: "int list list \<Rightarrow> int list" where
  "flatten_lengths episode_lengths = concat episode_lengths"

text \<open>
  The masked insert of \<open>CEMRLOpenESWorkflow.step\<close> (cemrl_openes.py, lines 208-217):
  \<open>mask = jnp.logical_not(right_shift_with_padding(trajectory.dones, 1))\<close>, then the
  trajectory and the mask are collapsed and handed to \<open>replay_buffer.add\<close>.

  Modelled from the spec: \<open>right_shift_with_padding\<close> (evorl/utils/jax_utils.py) is not
  among the sources; by its name and its use it moves every row \<open>shift\<close> steps later in
  time, drops the rows pushed past the end and fills the first \<open>shift\<close> rows with zeros,
  which yields the validity mask of the spec (a timestep is valid iff the episode was not
  done before it).
\<close>

definition right_shift_with_padding :: "real list list \<Rightarrow> nat \<Rightarrow> real list list" where
  "right_shift_with_padding x shift =
     (case x of
        [] \<Rightarrow> []
      | row # _ \<Rightarrow> take (length x) (replicate shift (map (\<lambda>_. 0) row) @ x))"

definition logical_not :: "real \<Rightarrow> bool" where
  "logical_not d = (d = 0)"

definition validity_mask :: "real list list \<Rightarrow> bool list list" where
  "validity_mask dones = map (map logical_not) (right_shift_with_padding dones 1)"

text \<open>
  Modelled from the spec: \<open>ReplayBuffer.add(batch, mask)\<close> (evorl/replay_buffers) is not
  among the sources; it "appends all elements flagged by mask in order". \<open>masked_items\<close>
  is the sequence of elements it appends.
\<close>

definition masked_items :: "'a list \<Rightarrow> bool list \<Rightarrow> 'a list" where
  "masked_items batch msk = map fst (filter snd (zip batch msk))"

definition masked_insert_items :: "'a list list \<Rightarrow> real list list \<Rightarrow> 'a list" where
  "masked_insert_items trajectory dones =
     masked_items (collapse trajectory) (collapse (validity_mask dones))"

text \<open>Well-formed rollout tensors: \<open>T\<close> rows of \<open>n\<close> entries each.\<close>

definition has_shape :: "nat \<Rightarrow> nat \<Rightarrow> 'a list list \<Rightarrow> bool" where
  "has_shape T n x = (length x = T \<and> (\<forall>row \<in> set x. length row = n))"

text \<open>
  The done flags of an episodic rollout (autoreset DISABLED): every flag is 0 or 1, and
  an env that is done stays done.
\<close>

definition episodic_dones :: "real list list \<Rightarrow> bool" where
  "episodic_dones dones =
     ((\<forall>row \<in> set dones. \<forall>d \<in> set row. d = 0 \<or> d = 1) \<and>
      (\<forall>t i. Suc t < length dones \<and> i < length (dones ! t) \<and> dones ! t ! i \<noteq> 0
          \<longrightarrow> dones ! Suc t ! i \<noteq> 0))"

section \<open>The ERL-Origin workflow (evorl/algorithms/contrib/erl_origin.py)\<close>

text \<open>
  The workflow calls its collaborators (collectors, EC optimizer, replay buffer, TD3 update)
  in program order. \<open>step\<close> returns, next to its two results, the sequence of these calls
  in the order in which the statements of the source make them.
\<close>

datatype call =
    Call_ask | Call_ec_rollout | Call_rl_rollout | Call_add_to_replay_buffer
  | Call_ec_update | Call_rl_update | Call_dummy_rl_update | Call_rl_injection
  | Call_tell | Call_tell_external | Call_rollout | Call_replay_buffer_add

text \<open>
  A dictionary of losses, each a tensor stored as the list of its entries: the list of its
  items in insertion order. \<open>{**a, **b}\<close> keeps the items of \<open>a\<close> and updates or appends those
  of \<open>b\<close>.
\<close>

type_synonym LossDict = "(string \<times> real list) list"

fun dict_update :: "string \<Rightarrow> real list \<Rightarrow> LossDict \<Rightarrow> LossDict" where
  "dict_update k v [] = [(k, v)]"
| "dict_update k v (kv # d) = (if fst kv = k then (k, v) # d else kv # dict_update k v d)"

definition dict_merge :: "LossDict \<Rightarrow> LossDict \<Rightarrow> LossDict" where
  "dict_merge a b = fold (\<lambda>kv d. dict_update (fst kv) (snd kv) d) b a"

record TD3TrainMetric =
  critic_loss :: real
  actor_loss :: real
  num_updates_per_iter :: int
  raw_loss_dict :: LossDict

record 'i POPTrainMetric =
  rb_size :: nat
  pop_episode_returns :: "real list"
  pop_episode_lengths :: "real list"
  rl_episode_returns :: "real list option"
  rl_episode_lengths :: "real list option"
  rl_metrics :: "TD3TrainMetric option"
  per_iter_time_cost :: real
  ec_info :: "'i option"

text \<open>
  \<open>POPTrainMetric\<close>; \<open>ec_info\<close>, by default an empty dictionary, is \<open>None\<close> until it is
  set. The counters of \<open>WorkflowMetric\<close> are \<open>uint32\<close> arrays and wrap around.
\<close>

record WorkflowMetric =
  sampled_timesteps :: "32 word"
  sampled_episodes :: "32 word"
  rl_sampled_timesteps :: "32 word"
  iterations :: "32 word"

text \<open>The metrics of an episode collector, of shape \<open>[pop, env]\<close>.\<close>

record EpisodeMetric =
  episode_returns :: "real list list"
  episode_lengths :: "int list list"

text \<open>
  The EC state: the population tensor is the list of its individuals. The RL agent state
  holds the \<open>num_rl_agents\<close> actors as a list as well; the critic parameters are absent
  (\<open>None\<close>) in the agent state that evaluates the population.
\<close>

record ('p, 'e) ECState =
  pop :: "'p list"
  external_pop :: "'p list"
  ec_rest :: 'e

type_synonym ('p, 'c, 'o) erl_agent_state =
  "(('p list, 'c option) TD3NetworkParams, 'o) AgentState"

type_synonym train_info = "real \<times> real \<times> LossDict \<times> LossDict"

record ('k, 'p, 'c, 'o, 'os, 'rb, 'ec) State =
  key :: 'k
  metrics :: WorkflowMetric
  agent_state :: "('p, 'c, 'o) erl_agent_state"
  opt_state :: 'os
  ec_opt_state :: 'ec
  replay_buffer_state :: "'rb option"

record erl_config = td3_config +
  pop_size :: nat
  num_rl_agents :: nat
  episodes_for_fitness :: nat
  rollout_episodes :: nat
  warmup_iters :: int
  rl_injection_interval :: int
  rl_updates_frac_per_iter :: real
  total_episodes :: int
  eval_interval :: int
  save_replay_buffer :: bool
  num_learning_offspring :: nat

text \<open>
  A \<open>uint32\<close> array against a Python int, as in \<open>iterations > self.config.warmup_iters\<close>
  and \<open>iterations % self.config.rl_injection_interval\<close>: the Python int is converted to
  \<open>uint32\<close>, a negative one modulo \<open>2^32\<close>, and the operation is the one of \<open>uint32\<close>;
  the remainder of a division by zero is 0. An int of \<open>2^32\<close> or more has no \<open>uint32\<close>
  value: the comparison with it is by value, its remainder is taken modulo \<open>2^32\<close> like
  the others.
\<close>

definition jnp_greater_uint32 :: "32 word \<Rightarrow> int \<Rightarrow> bool" where
  "jnp_greater_uint32 x n =
     (if n < 0 then (word_of_int n :: 32 word) < x else n < int (unat x))"

definition jnp_remainder_uint32 :: "32 word \<Rightarrow> int \<Rightarrow> 32 word" where
  "jnp_remainder_uint32 x n =
     (let d = (word_of_int n :: 32 word) in if d = 0 then 0 else x mod d)"

text \<open>
  The collaborators whose code is outside the sources at hand are parameters: the vmapped
  \<open>EpisodeCollector.evaluate\<close> of the two collectors, \<open>clean_trajectory\<close>,
  \<open>flatten_pop_rollout_episode\<close>, the EC optimizer's \<open>tell\<close>, the flashbax buffer and
  the jitted \<open>self._rl_update_fn\<close>. \<open>tree_stop_gradient\<close> does not change values.
  \<open>float32\<close> is the rounding of a real number to the nearest \<open>float32\<close>, the type in which
  the product \<open>total_timesteps * rl_updates_frac_per_iter\<close> is computed.
\<close>

record ('k, 'p, 'c, 'o, 'os, 'tr, 'rb, 'e) erl_origin_ops = "'k rng" +
  ec_collector_evaluate :: "('p, 'c, 'o) erl_agent_state \<Rightarrow> nat \<Rightarrow> 'k list
     \<Rightarrow> EpisodeMetric \<times> 'tr list list list"
  rl_collector_evaluate :: "('p, 'c, 'o) erl_agent_state \<Rightarrow> nat \<Rightarrow> 'k list
     \<Rightarrow> EpisodeMetric \<times> 'tr list list list"
  clean_trajectory :: "'tr list list list \<Rightarrow> 'tr list list list"
  flatten_pop_rollout_episode :: "'tr list list list \<Rightarrow> 'tr list list"
  ec_optimizer_tell :: "('p, 'e) ECState \<Rightarrow> 'p list \<Rightarrow> real list \<Rightarrow> ('p, 'e) ECState"
  replay_buffer_add :: "'rb \<Rightarrow> 'tr list \<Rightarrow> 'rb"
  replay_buffer_sample :: "'rb \<Rightarrow> 'k \<Rightarrow> 'tr list"
  get_buffer_size :: "'rb \<Rightarrow> nat"
  rl_update_fn :: "('p, 'c, 'o) erl_agent_state \<Rightarrow> 'os \<Rightarrow> 'tr list list \<Rightarrow> 'k
     \<Rightarrow> ((('p, 'c, 'o) erl_agent_state \<times> 'os) \<times> train_info) option"
  float32 :: "real \<Rightarrow> real"

text \<open>\<open>x.mean(axis=-1)\<close> of one row (the mean of an empty row, NaN in JAX, is 0 here).\<close>

definition mean :: "real list \<Rightarrow> real" where
  "mean xs = sum_list xs / real (length xs)"

text \<open>\<open>_ec_rollout\<close>, lines 420-435, and \<open>_rl_rollout\<close>, lines 437-452.\<close>

definition ERLWorkflow_ec_rollout ::
  "('k, 'p, 'c, 'o, 'os, 'tr, 'rb, 'e) erl_origin_ops \<Rightarrow> 'z erl_config_scheme
    \<Rightarrow> ('p, 'c, 'o) erl_agent_state \<Rightarrow> 'k \<Rightarrow> EpisodeMetric \<times> 'tr list list" where
  "ERLWorkflow_ec_rollout ops config ag k =
     (let (eval_metrics, trajectory) =
            ec_collector_evaluate ops ag (episodes_for_fitness config)
              (random_split ops k (pop_size config));
          trajectory1 = clean_trajectory ops trajectory;
          trajectory2 = flatten_pop_rollout_episode ops trajectory1
      in (eval_metrics, trajectory2))"

definition ERLWorkflow_rl_rollout ::
  "('k, 'p, 'c, 'o, 'os, 'tr, 'rb, 'e) erl_origin_ops \<Rightarrow> 'z erl_config_scheme
    \<Rightarrow> ('p, 'c, 'o) erl_agent_state \<Rightarrow> 'k \<Rightarrow> EpisodeMetric \<times> 'tr list list" where
  "ERLWorkflow_rl_rollout ops config ag k =
     (let (eval_metrics, trajectory) =
            rl_collector_evaluate ops ag (rollout_episodes config)
              (random_split ops k (num_rl_agents config));
          trajectory1 = clean_trajectory ops trajectory;
          trajectory2 = flatten_pop_rollout_episode ops trajectory1
      in (eval_metrics, trajectory2))"

text \<open>
  \<open>_rl_update\<close>, lines 454-500: a \<open>jax.lax.scan\<close> of \<open>num_updates\<close> rounds, each
  sampling \<open>actor_update_interval\<close> minibatches and calling \<open>self._rl_update_fn\<close>; only
  the last \<open>train_info\<close> is kept. A scan of negative length raises.
\<close>

definition init_train_info :: "'z erl_config_scheme \<Rightarrow> train_info" where
  "init_train_info config =
     (0, 0,
      [(''critic_loss'', replicate (num_rl_agents config) 0),
       (''q_value'', replicate (num_rl_agents config) 0)],
      [(''actor_loss'', replicate (num_rl_agents config) 0)])"

fun sample_and_update_scan ::
  "('k, 'p, 'c, 'o, 'os, 'tr, 'rb, 'e) erl_origin_ops \<Rightarrow> 'z erl_config_scheme \<Rightarrow> 'rb \<Rightarrow> nat
    \<Rightarrow> 'k \<times> ('p, 'c, 'o) erl_agent_state \<times> 'os \<times> train_info
    \<Rightarrow> ('k \<times> ('p, 'c, 'o) erl_agent_state \<times> 'os \<times> train_info) option" where
  "sample_and_update_scan ops config rb 0 carry = Some carry"
| "sample_and_update_scan ops config rb (Suc n) (k, ag, os, info0) =
     (case random_split ops k 3 of
        [k', rb_key, learn_key] \<Rightarrow>
          (let rb_keys = random_split ops k' (nat (actor_update_interval config));
               sample_batches = map (replay_buffer_sample ops rb) rb_keys
           in case rl_update_fn ops ag os sample_batches learn_key of
                None \<Rightarrow> None
              | Some ((ag', os'), info1) \<Rightarrow>
                  sample_and_update_scan ops config rb n (k', ag', os', info1))
      | _ \<Rightarrow> None)"

definition ERLWorkflow_rl_update ::
  "('k, 'p, 'c, 'o, 'os, 'tr, 'rb, 'e) erl_origin_ops \<Rightarrow> 'z erl_config_scheme
    \<Rightarrow> ('p, 'c, 'o) erl_agent_state \<Rightarrow> 'os \<Rightarrow> 'rb \<Rightarrow> int \<Rightarrow> 'k
    \<Rightarrow> (TD3TrainMetric \<times> ('p, 'c, 'o) erl_agent_state \<times> 'os) option" where
  "ERLWorkflow_rl_update ops config ag os rb num_updates k =
     (if num_updates < 0 then None
      else case sample_and_update_scan ops config rb (nat num_updates)
                  (k, ag, os, init_train_info config) of
             None \<Rightarrow> None
           | Some (k', ag', os', (closs, aloss, critic_loss_dict, actor_loss_dict)) \<Rightarrow>
               Some (\<lparr>critic_loss = closs, actor_loss = aloss,
                      num_updates_per_iter = num_updates,
                      raw_loss_dict = dict_merge critic_loss_dict actor_loss_dict\<rparr>,
                     ag', os'))"

text \<open>\<open>_ec_update\<close>, lines 502-504.\<close>

definition ERLWorkflow_ec_update ::
  "('k, 'p, 'c, 'o, 'os, 'tr, 'rb, 'e) erl_origin_ops \<Rightarrow> ('p, 'e) ECState \<Rightarrow> 'p list
    \<Rightarrow> real list \<Rightarrow> ('p, 'e) ECState" where
  "ERLWorkflow_ec_update ops ec pop_actor_params fitnesses =
     ec_optimizer_tell ops ec pop_actor_params fitnesses"

text \<open>
  \<open>fitnesses.argsort()\<close>: the indices in ascending order of fitness, ties in index order
  (the sort of \<open>jnp.argsort\<close> is stable).
\<close>

definition argsort :: "real list \<Rightarrow> nat list" where
  "argsort xs = map snd (sort_key fst (zip xs [0..<length xs]))"

text \<open>
  Modelled from the spec: \<open>tree_set\<close> (evorl/utils/jax_utils.py) is not among the
  sources; it is what "overwrite the lowest-fitness population members with the current RL
  actors" needs: \<open>x.at[indices].set(y)\<close> on every leaf, that is, individual
  \<open>indices[j]\<close> becomes \<open>y[j]\<close>. Updates whose number differs from the number of indices
  are a shape error; an index outside the population is dropped.
\<close>

fun set_rows :: "'p list \<Rightarrow> nat list \<Rightarrow> 'p list \<Rightarrow> 'p list" where
  "set_rows xs [] ys = xs"
| "set_rows xs (i # is) [] = xs"
| "set_rows xs (i # is) (y # ys) = set_rows (xs[i := y]) is ys"

definition tree_set :: "'p list \<Rightarrow> 'p list \<Rightarrow> nat list \<Rightarrow> 'p list option" where
  "tree_set x y indices =
     (if length indices \<noteq> length y then None else Some (set_rows x indices y))"

text \<open>
  \<open>_rl_injection\<close>, lines 646-663. \<open>chex.assert_tree_shape_prefix\<close> raises unless the
  actors' leading dimension is \<open>num_rl_agents\<close>.
\<close>

definition ERLWorkflow_rl_injection ::
  "'z erl_config_scheme \<Rightarrow> ('p, 'c, 'o) erl_agent_state \<Rightarrow> ('p, 'e) ECState \<Rightarrow> real list
    \<Rightarrow> ('p, 'e) ECState option" where
  "ERLWorkflow_rl_injection config ag ec fitnesses =
     (let pop_actor_params = pop ec;
          worst_indices = take (num_rl_agents config) (argsort fitnesses);
          rl_actor_params = actor_params (params ag)
      in if length rl_actor_params \<noteq> num_rl_agents config then None
         else case tree_set pop_actor_params rl_actor_params worst_indices of
                None \<Rightarrow> None
              | Some pop' \<Rightarrow> Some (ec\<lparr>pop := pop'\<rparr>))"

text \<open>
  The RL branch of \<open>step\<close>, lines 581-617, taken when \<open>iterations > warmup_iters\<close>:
  RL rollout, append, TD3 update, and the injection when
  \<open>iterations % rl_injection_interval == 0\<close>. \<open>total_timesteps * rl_updates_frac_per_iter\<close>
  is the \<open>float32\<close> product of the \<open>uint32\<close> counter and the Python float, both converted
  to \<open>float32\<close>; \<open>math.ceil\<close> of it is a Python int, and \<open>//\<close> by zero raises. The arguments are the
  state at the start of the step, the iteration number, the two keys, the values computed
  by the EC part, and the calls made so far; the result also carries
  \<open>rl_sampled_timesteps\<close>.
\<close>

definition ERLWorkflow_step_rl ::
  "('k, 'p, 'c, 'o, 'os, 'tr, 'rb, 'e) erl_origin_ops \<Rightarrow> 'z erl_config_scheme
    \<Rightarrow> ('k, 'p, 'c, 'o, 'os, 'rb, ('p, 'e) ECState) State \<Rightarrow> 32 word \<Rightarrow> 'k \<Rightarrow> 'k
    \<Rightarrow> 'rb \<Rightarrow> ('p, 'e) ECState \<Rightarrow> real list \<Rightarrow> 32 word \<Rightarrow> 32 word \<Rightarrow> 'i POPTrainMetric
    \<Rightarrow> call list
    \<Rightarrow> (call list \<times> 'i POPTrainMetric \<times> ('p, 'c, 'o) erl_agent_state \<times> 'os
         \<times> ('p, 'e) ECState \<times> 'rb \<times> 32 word \<times> 32 word \<times> 32 word) option" where
  "ERLWorkflow_step_rl ops config st iters rl_rollout_key learn_key rb1 ec1 fitnesses
       timesteps1 episodes1 train_metrics1 calls1 =
     (let (rl_eval_metrics, rl_trajectory) =
            ERLWorkflow_rl_rollout ops config (agent_state st) rl_rollout_key;
          calls2 = calls1 @ [Call_rl_rollout]
      in case add_to_replay_buffer (replay_buffer_add ops) rb1 rl_trajectory
                (flatten_lengths (episode_lengths rl_eval_metrics)) of
           None \<Rightarrow> None
         | Some rb2 \<Rightarrow>
             let calls3 = calls2 @ [Call_add_to_replay_buffer];
                 rl_timesteps =
                   (word_of_int (sum_list (flatten_lengths (episode_lengths rl_eval_metrics)))
                      :: 32 word);
                 timesteps2 = timesteps1 + rl_timesteps;
                 episodes2 = episodes1
                   + word_of_nat (num_rl_agents config * rollout_episodes config);
                 total_timesteps = sampled_timesteps (metrics st) + timesteps2
             in if actor_update_interval config = 0 then None
                else
                  let num_updates =
                        \<lceil>float32 ops
                           (float32 ops (real (unat total_timesteps))
                              * float32 ops (rl_updates_frac_per_iter config))\<rceil>
                          div actor_update_interval config
                  in case ERLWorkflow_rl_update ops config (agent_state st) (opt_state st)
                            rb2 num_updates learn_key of
                       None \<Rightarrow> None
                     | Some (td3_metrics, ag2, os2) \<Rightarrow>
                         let calls4 = calls3 @ [Call_rl_update];
                             injected =
                               (if jnp_remainder_uint32 iters (rl_injection_interval config) = 0
                                then map_option (\<lambda>ec. (ec, calls4 @ [Call_rl_injection]))
                                       (ERLWorkflow_rl_injection config ag2 ec1 fitnesses)
                                else Some (ec1, calls4))
                         in case injected of
                              None \<Rightarrow> None
                            | Some (ec2, calls5) \<Rightarrow>
                                Some (calls5,
                                      train_metrics1\<lparr>
                                        rl_episode_lengths := Some
                                          (map (\<lambda>r. mean (map real_of_int r))
                                             (episode_lengths rl_eval_metrics)),
                                        rl_episode_returns := Some
                                          (map mean (episode_returns rl_eval_metrics)),
                                        rl_metrics := Some td3_metrics\<rparr>,
                                      ag2, os2, ec2, rb2, rl_timesteps, timesteps2,
                                      episodes2))"

text \<open>The agent state that evaluates the population, lines 547-554 of \<open>step\<close>.\<close>

definition ERLWorkflow_pop_agent_state ::
  "('p, 'c, 'o) erl_agent_state \<Rightarrow> 'p list \<Rightarrow> ('p, 'c, 'o) erl_agent_state" where
  "ERLWorkflow_pop_agent_state ag pop_actor_params =
     ag\<lparr>params :=
        \<lparr>actor_params = pop_actor_params, critic_params = None,
         target_actor_params = pop_actor_params, target_critic_params = None\<rparr>\<rparr>"

text \<open>
  \<open>ERLWorkflow.step\<close>, lines 524-644. The replay-buffer state of a training state is
  present (it is absent only in a state prepared for a checkpoint without the buffer);
  a step on a state without it fails.
\<close>

definition ERLWorkflow_step ::
  "('k, 'p, 'c, 'o, 'os, 'tr, 'rb, 'e) erl_origin_ops \<Rightarrow> 'z erl_config_scheme
    \<Rightarrow> ('k, 'p, 'c, 'o, 'os, 'rb, ('p, 'e) ECState) State
    \<Rightarrow> (call list \<times> 'i POPTrainMetric \<times> ('k, 'p, 'c, 'o, 'os, 'rb, ('p, 'e) ECState) State) option" where
  "ERLWorkflow_step ops config st =
     (let iters = iterations (metrics st) + 1;
          pop_actor_params = pop (ec_opt_state st)
      in case (replay_buffer_state st, random_split ops (key st) 6) of
           (Some rb0, [key1, rb_sample_key, ec_rollout_key, rl_rollout_key, ec_key, learn_key])
           \<Rightarrow>
             let pop_agent_state = ERLWorkflow_pop_agent_state (agent_state st) pop_actor_params;
                 (ec_eval_metrics, ec_trajectory) =
                   ERLWorkflow_ec_rollout ops config pop_agent_state ec_rollout_key;
                 calls1 = [Call_ec_rollout];
                 fitnesses = map mean (episode_returns ec_eval_metrics)
             in (case add_to_replay_buffer (replay_buffer_add ops) rb0 ec_trajectory
                        (flatten_lengths (episode_lengths ec_eval_metrics)) of
                   None \<Rightarrow> None
                 | Some rb1 \<Rightarrow>
                     let calls2 = calls1 @ [Call_add_to_replay_buffer];
                         ec1 = ERLWorkflow_ec_update ops (ec_opt_state st) pop_actor_params
                                 fitnesses;
                         calls3 = calls2 @ [Call_ec_update];
                         timesteps1 =
                           (0 + word_of_int
                                  (sum_list (flatten_lengths (episode_lengths ec_eval_metrics)))
                              :: 32 word);
                         episodes1 =
                           (0 + word_of_nat (episodes_for_fitness config * pop_size config)
                              :: 32 word);
                         train_metrics1 =
                           \<lparr>rb_size = 0,
                            pop_episode_returns = map mean (episode_returns ec_eval_metrics),
                            pop_episode_lengths =
                              map (\<lambda>r. mean (map real_of_int r))
                                (episode_lengths ec_eval_metrics),
                            rl_episode_returns = None, rl_episode_lengths = None,
                            rl_metrics = None, per_iter_time_cost = 0, ec_info = None\<rparr>;
                         branch =
                           (if jnp_greater_uint32 iters (warmup_iters config)
                            then ERLWorkflow_step_rl ops config st iters rl_rollout_key
                                   learn_key rb1 ec1 fitnesses timesteps1 episodes1
                                   train_metrics1 calls3
                            else Some (calls3, train_metrics1, agent_state st, opt_state st,
                                       ec1, rb1, 0, timesteps1, episodes1))
                     in (case branch of
                           None \<Rightarrow> None
                         | Some (calls4, train_metrics2, ag2, os2, ec2, rb2, rl_timesteps,
                                 timesteps2, episodes2) \<Rightarrow>
                             let train_metrics3 =
                                   train_metrics2\<lparr>rb_size := get_buffer_size ops rb2\<rparr>;
                                 workflow_metrics = (metrics st)\<lparr>
                                   sampled_timesteps :=
                                     sampled_timesteps (metrics st) + timesteps2,
                                   sampled_episodes :=
                                     sampled_episodes (metrics st) + episodes2,
                                   rl_sampled_timesteps :=
                                     rl_sampled_timesteps (metrics st) + rl_timesteps,
                                   iterations := iters\<rparr>
                             in Some (calls4, train_metrics3,
                                      st\<lparr>key := key1, metrics := workflow_metrics,
                                         agent_state := ag2,
                                         replay_buffer_state := Some rb2,
                                         ec_opt_state := ec2, opt_state := os2\<rparr>)))
         | _ \<Rightarrow> None)"

section \<open>The ERL-GA workflow (evorl/algorithms/erl/erl_ga.py)\<close>

text \<open>
  The methods \<open>_ec_rollout\<close>, \<open>_rl_rollout\<close> and \<open>_rl_update\<close> of \<open>ERLGAWorkflow\<close> are
  inherited from \<open>ERLWorkflowTemplate\<close> (erl_utils.py), which is not among the sources, as
  are \<open>erl_replace_td3_actor_params\<close> and the optimizer \<open>ERLGAMod\<close>; they are
  parameters with the signatures of their calls in \<open>step\<close>. The two rollouts take the
  replay-buffer state and return the updated one.
\<close>

record ('k, 'p, 'c, 'o, 'os, 'tr, 'rb, 'e, 'i) erl_ga_ops = "'k rng" +
  ga_ask :: "('p, 'e) ECState \<Rightarrow> 'p list \<times> ('p, 'e) ECState"
  ga_tell :: "('p, 'e) ECState \<Rightarrow> real list \<Rightarrow> 'i \<times> ('p, 'e) ECState"
  ga_tell_external :: "('p, 'e) ECState \<Rightarrow> real list \<Rightarrow> 'i \<times> ('p, 'e) ECState"
  erl_replace_td3_actor_params :: "('p, 'c, 'o) erl_agent_state \<Rightarrow> 'p list
     \<Rightarrow> ('p, 'c, 'o) erl_agent_state"
  ga_ec_rollout :: "('p, 'c, 'o) erl_agent_state \<Rightarrow> 'rb \<Rightarrow> 'k
     \<Rightarrow> EpisodeMetric \<times> 'tr list list \<times> 'rb"
  ga_rl_rollout :: "('p, 'c, 'o) erl_agent_state \<Rightarrow> 'rb \<Rightarrow> 'k
     \<Rightarrow> EpisodeMetric \<times> 'tr list list \<times> 'rb"
  ga_rl_update :: "('p, 'c, 'o) erl_agent_state \<Rightarrow> 'os \<Rightarrow> 'rb \<Rightarrow> 'k
     \<Rightarrow> TD3TrainMetric \<times> ('p, 'c, 'o) erl_agent_state \<times> 'os"
  ga_buffer_size :: "'rb \<Rightarrow> nat"

text \<open>\<open>ERLGAWorkflow._rl_injection\<close>, lines 202-208.\<close>

definition ERLGAWorkflow_rl_injection ::
  "'z erl_config_scheme \<Rightarrow> ('p, 'e) ECState \<Rightarrow> ('p, 'c, 'o) erl_agent_state
    \<Rightarrow> ('p, 'e) ECState option" where
  "ERLGAWorkflow_rl_injection config ec ag =
     (let rl_actor_params = actor_params (params ag)
      in if length rl_actor_params \<noteq> num_rl_agents config then None
         else Some (ec\<lparr>external_pop := rl_actor_params\<rparr>))"

text \<open>
  \<open>ERLGAWorkflow.step\<close>, lines 210-304. \<open>jax.lax.cond\<close> traces both of its branch
  functions, \<open>_tell_with_rl_injection\<close> and \<open>self.ec_optimizer.tell\<close>, whatever the
  predicate is: the shape assertion of \<open>_rl_injection\<close>, which is checked while tracing,
  fails the step, and so does a difference between the structures or shapes of the two
  results. Of these, the numbers of rows of \<open>pop\<close> and of \<open>external_pop\<close> in the two
  optimizer states are represented (\<open>ECState_same_shape\<close>); the shape of one individual, of
  the rest of the optimizer state and of the info is not. \<open>_tell_with_rl_injection\<close>
  reads the agent state after the TD3 update.
\<close>

definition ECState_same_shape :: "('p, 'e) ECState \<Rightarrow> ('p, 'e) ECState \<Rightarrow> bool" where
  "ECState_same_shape x y =
     (length (pop x) = length (pop y) \<and> length (external_pop x) = length (external_pop y))"

definition ERLGAWorkflow_step ::
  "('k, 'p, 'c, 'o, 'os, 'tr, 'rb, 'e, 'i) erl_ga_ops \<Rightarrow> 'z erl_config_scheme
    \<Rightarrow> ('k, 'p, 'c, 'o, 'os, 'rb, ('p, 'e) ECState) State
    \<Rightarrow> (call list \<times> 'i POPTrainMetric
         \<times> ('k, 'p, 'c, 'o, 'os, 'rb, ('p, 'e) ECState) State) option" where
  "ERLGAWorkflow_step ops config st =
     (let iters = iterations (metrics st) + 1
      in case (replay_buffer_state st, random_split ops (key st) 4) of
           (Some rb0, [key1, ec_rollout_key, rl_rollout_key, learn_key]) \<Rightarrow>
             let (pop_actor_params, ec1) = ga_ask ops (ec_opt_state st);
                 calls1 = [Call_ask];
                 pop_agent_state =
                   erl_replace_td3_actor_params ops (agent_state st) pop_actor_params;
                 (ec_eval_metrics, ec_trajectory, rb1) =
                   ga_ec_rollout ops pop_agent_state rb0 ec_rollout_key;
                 calls2 = calls1 @ [Call_ec_rollout];
                 ec_sampled_timesteps =
                   (word_of_int (sum_list (flatten_lengths (episode_lengths ec_eval_metrics)))
                      :: 32 word);
                 ec_sampled_episodes =
                   (word_of_nat (episodes_for_fitness config * pop_size config) :: 32 word);
                 (rl_eval_metrics, rl_trajectory, rb2) =
                   ga_rl_rollout ops (agent_state st) rb1 rl_rollout_key;
                 calls3 = calls2 @ [Call_rl_rollout];
                 rl_timesteps =
                   (word_of_int (sum_list (flatten_lengths (episode_lengths rl_eval_metrics)))
                      :: 32 word);
                 rl_sampled_episodes =
                   (word_of_nat (num_rl_agents config * rollout_episodes config) :: 32 word);
                 (td3_metrics, ag2, os2) =
                   ga_rl_update ops (agent_state st) (opt_state st) rb2 learn_key;
                 calls4 = calls3 @ [Call_rl_update];
                 td3_metrics1 = td3_metrics\<lparr>
                   actor_loss := actor_loss td3_metrics / real (num_rl_agents config),
                   critic_loss := critic_loss td3_metrics / real (num_rl_agents config)\<rparr>;
                 fitnesses = map mean (episode_returns ec_eval_metrics)
             in (case ERLGAWorkflow_rl_injection config ec1 ag2 of
                   None \<Rightarrow> None
                 | Some ec_injected \<Rightarrow>
                    (let (true_metrics, true_ec) = ga_tell_external ops ec_injected fitnesses;
                         (false_metrics, false_ec) = ga_tell ops ec1 fitnesses
                     in if \<not> ECState_same_shape true_ec false_ec then None
                        else
                     let (ec_metrics, ec2, calls5) =
                           (if jnp_remainder_uint32 iters (rl_injection_interval config) = 0
                            then (true_metrics, true_ec,
                                  calls4 @ [Call_rl_injection, Call_tell_external])
                            else (false_metrics, false_ec, calls4 @ [Call_tell]));
                         train_metrics =
                           \<lparr>rb_size = ga_buffer_size ops rb2,
                            pop_episode_returns = map mean (episode_returns ec_eval_metrics),
                            pop_episode_lengths =
                              map (\<lambda>r. mean (map real_of_int r))
                                (episode_lengths ec_eval_metrics),
                            rl_episode_returns =
                              Some (map mean (episode_returns rl_eval_metrics)),
                            rl_episode_lengths =
                              Some (map (\<lambda>r. mean (map real_of_int r))
                                      (episode_lengths rl_eval_metrics)),
                            rl_metrics = Some td3_metrics1, per_iter_time_cost = 0,
                            ec_info = Some ec_metrics\<rparr>;
                         timesteps = ec_sampled_timesteps + rl_timesteps;
                         episodes = ec_sampled_episodes + rl_sampled_episodes;
                         workflow_metrics = (metrics st)\<lparr>
                           sampled_timesteps := sampled_timesteps (metrics st) + timesteps,
                           sampled_episodes := sampled_episodes (metrics st) + episodes,
                           rl_sampled_timesteps :=
                             rl_sampled_timesteps (metrics st) + rl_timesteps,
                           iterations := iters\<rparr>
                     in Some (calls5, train_metrics,
                              st\<lparr>key := key1, metrics := workflow_metrics,
                                 agent_state := ag2, replay_buffer_state := Some rb2,
                                 ec_opt_state := ec2, opt_state := os2\<rparr>)))
         | _ \<Rightarrow> None)"

section \<open>The CEMRL-OpenES workflow (evorl/algorithms/erl/cemrl_openes.py)\<close>





section \<open>The learn loops and their checkpoints\<close>

text \<open>
  Modelled from the spec: \<open>skip_replay_buffer_state\<close> (offpolicy_utils.py) is not among
  the sources; it returns the training state with its replay-buffer state removed.
\<close>

definition skip_replay_buffer_state ::
  "('k, 'p, 'c, 'o, 'os, 'rb, 'ec) State \<Rightarrow> ('k, 'p, 'c, 'o, 'os, 'rb, 'ec) State" where
  "skip_replay_buffer_state st = st\<lparr>replay_buffer_state := None\<rparr>"

text \<open>
  The three loops have one shape: for every \<open>i\<close> of a range, with \<open>iters = i + 1\<close>: run
  \<open>self.step\<close>, write the metrics to the recorder (a logging sink, not modelled), run
  \<open>self.evaluate\<close> when the evaluation condition holds, and call
  \<open>self.checkpoint_manager.save(iters, args=ocp.args.StandardSave(...))\<close>. \<open>learn_loop\<close>
  returns the final state and the sequence of the \<open>(iters, record)\<close> pairs handed to the
  checkpoint manager. \<open>step\<close> and \<open>evaluate\<close> are the methods of the workflow; the
  evaluation condition may raise (\<open>%\<close> by zero), and \<open>checkpoint_arg\<close> is the argument
  of \<open>StandardSave\<close>.
\<close>

fun learn_loop ::
  "('s \<Rightarrow> ('m \<times> 's) option) \<Rightarrow> ('s \<Rightarrow> 'em \<times> 's) \<Rightarrow> (int \<Rightarrow> bool option) \<Rightarrow> ('s \<Rightarrow> 's)
    \<Rightarrow> nat list \<Rightarrow> 's \<Rightarrow> (int \<times> 's) list \<Rightarrow> ('s \<times> (int \<times> 's) list) option" where
  "learn_loop step evaluate eval_now checkpoint_arg [] st saves = Some (st, saves)"
| "learn_loop step evaluate eval_now checkpoint_arg (i # rest) st saves =
     (let iters = int i + 1
      in case step st of
           None \<Rightarrow> None
         | Some (train_metrics, st1) \<Rightarrow>
            (case eval_now iters of
               None \<Rightarrow> None
             | Some b \<Rightarrow>
                 let st2 = (if b then snd (evaluate st1) else st1)
                 in learn_loop step evaluate eval_now checkpoint_arg rest st2
                      (saves @ [(iters, checkpoint_arg st2)])))"

text \<open>\<open>iters % self.config.eval_interval == 0\<close> on Python integers.\<close>

definition eval_interval_hit :: "'z erl_config_scheme \<Rightarrow> int \<Rightarrow> bool option" where
  "eval_interval_hit config iters =
     (if eval_interval config = 0 then None
      else Some (iters mod eval_interval config = 0))"

text \<open>
  \<open>saved_state = state; if not self.config.save_replay_buffer: saved_state =
  skip_replay_buffer_state(saved_state)\<close>, the statements before every save.
\<close>

definition saved_state_of ::
  "'z erl_config_scheme \<Rightarrow> ('k, 'p, 'c, 'o, 'os, 'rb, 'ec) State
    \<Rightarrow> ('k, 'p, 'c, 'o, 'os, 'rb, 'ec) State" where
  "saved_state_of config st =
     (let saved_state = st
      in if \<not> save_replay_buffer config then skip_replay_buffer_state saved_state
         else saved_state)"

text \<open>
  \<open>ERLWorkflow.learn\<close> (erl_origin.py, lines 686-759). \<open>math.ceil\<close> of the quotient of
  two Python integers; the division by zero raises. Line 757 saves \<open>state\<close>; the
  variable \<open>saved_state\<close> of lines 753-755 is not used.
\<close>

definition ERLWorkflow_learn ::
  "'z erl_config_scheme
    \<Rightarrow> (('k, 'p, 'c, 'o, 'os, 'rb, 'ec) State
          \<Rightarrow> ('m \<times> ('k, 'p, 'c, 'o, 'os, 'rb, 'ec) State) option)
    \<Rightarrow> (('k, 'p, 'c, 'o, 'os, 'rb, 'ec) State \<Rightarrow> 'em \<times> ('k, 'p, 'c, 'o, 'os, 'rb, 'ec) State)
    \<Rightarrow> ('k, 'p, 'c, 'o, 'os, 'rb, 'ec) State
    \<Rightarrow> (('k, 'p, 'c, 'o, 'os, 'rb, 'ec) State
         \<times> (int \<times> ('k, 'p, 'c, 'o, 'os, 'rb, 'ec) State) list) option" where
  "ERLWorkflow_learn config step evaluate st =
     (if episodes_for_fitness config * pop_size config = 0 then None
      else
        let num_iters =
              \<lceil>real_of_int (total_episodes config)
                 / real (episodes_for_fitness config * pop_size config)\<rceil>
        in learn_loop step evaluate (eval_interval_hit config)
             (\<lambda>state. let saved_state = saved_state_of config state in state)
             [unat (iterations (metrics st))..<nat num_iters] st [])"

text \<open>
  \<open>ERLGAWorkflow.learn\<close> (erl_ga.py, lines 326-390). \<open>total_episodes -
  state.metrics.sampled_episodes\<close> and \<open>num_iters + state.metrics.iterations\<close> are
  \<open>uint32\<close> arithmetic. The evaluation also runs at the last iteration. Line 388 saves
  \<open>saved_state\<close>.
\<close>

definition ERLGAWorkflow_learn ::
  "'z erl_config_scheme
    \<Rightarrow> (('k, 'p, 'c, 'o, 'os, 'rb, 'ec) State
          \<Rightarrow> ('m \<times> ('k, 'p, 'c, 'o, 'os, 'rb, 'ec) State) option)
    \<Rightarrow> (('k, 'p, 'c, 'o, 'os, 'rb, 'ec) State \<Rightarrow> 'em \<times> ('k, 'p, 'c, 'o, 'os, 'rb, 'ec) State)
    \<Rightarrow> ('k, 'p, 'c, 'o, 'os, 'rb, 'ec) State
    \<Rightarrow> (('k, 'p, 'c, 'o, 'os, 'rb, 'ec) State
         \<times> (int \<times> ('k, 'p, 'c, 'o, 'os, 'rb, 'ec) State) list) option" where
  "ERLGAWorkflow_learn config step evaluate st =
     (let sampled_episodes_per_iter =
            episodes_for_fitness config * pop_size config
              + rollout_episodes config * num_rl_agents config
      in if sampled_episodes_per_iter = 0 then None
         else
           let remaining =
                 (word_of_int (total_episodes config) - sampled_episodes (metrics st)
                    :: 32 word);
               num_iters = \<lceil>real (unat remaining) / real sampled_episodes_per_iter\<rceil>;
               final_iters = (word_of_int num_iters + iterations (metrics st) :: 32 word)
           in learn_loop step evaluate
                (\<lambda>iters. case eval_interval_hit config iters of
                            None \<Rightarrow> None
                          | Some b \<Rightarrow> Some (b \<or> iters = int (unat final_iters)))
                (\<lambda>state. saved_state_of config state)
                [unat (iterations (metrics st))..<unat final_iters] st [])"

text \<open>
  \<open>ERLESWorkflow.learn\<close> (erl_es.py, lines 353-411). Line 409 saves \<open>state\<close>, as
  erl_origin.py does; so does line 297 of cemrl_openes.py, whose loop is the same.
\<close>

definition ERLESWorkflow_learn ::
  "'z erl_config_scheme
    \<Rightarrow> (('k, 'p, 'c, 'o, 'os, 'rb, 'ec) State
          \<Rightarrow> ('m \<times> ('k, 'p, 'c, 'o, 'os, 'rb, 'ec) State) option)
    \<Rightarrow> (('k, 'p, 'c, 'o, 'os, 'rb, 'ec) State \<Rightarrow> 'em \<times> ('k, 'p, 'c, 'o, 'os, 'rb, 'ec) State)
    \<Rightarrow> ('k, 'p, 'c, 'o, 'os, 'rb, 'ec) State
    \<Rightarrow> (('k, 'p, 'c, 'o, 'os, 'rb, 'ec) State
         \<times> (int \<times> ('k, 'p, 'c, 'o, 'os, 'rb, 'ec) State) list) option" where
  "ERLESWorkflow_learn config step evaluate st =
     (if episodes_for_fitness config * pop_size config = 0 then None
      else
        let remaining =
              (word_of_int (total_episodes config) - sampled_episodes (metrics st)
                 :: 32 word);
            num_iters =
              \<lceil>real (unat remaining)
                 / real (episodes_for_fitness config * pop_size config)\<rceil>;
            final_iters = (word_of_int num_iters + iterations (metrics st) :: 32 word)
        in learn_loop step evaluate (eval_interval_hit config)
             (\<lambda>state. let saved_state = saved_state_of config state in state)
             [unat (iterations (metrics st))..<unat final_iters] st [])"

section \<open>Concrete instances used to evaluate the model\<close>

text \<open>
  A small environment over natural numbers: an action is added to the position, the
  reward is the action, and the episode terminates once the position reaches 5. Keys are
  natural numbers.
\<close>

definition toy_env :: "(nat, nat, (nat, nat, nat) EnvState) Env" where
  "toy_env =
     \<lparr>env_reset = (\<lambda>k. Some
        \<lparr>env_state = k, obs = k, reward = 0, done_flag = 0,
         info = \<lparr>steps = 0, termination_flag = 0, truncation = 0, ori_obs = None,
                 episode_return = None, autoreset = None\<rparr>,
         internal = \<lparr>reset_key = None\<rparr>\<rparr>),
      env_step = (\<lambda>s a. Some
        (s\<lparr>env_state := env_state s + a, obs := env_state s + a, reward := real a,
           done_flag := (if 5 \<le> env_state s + a then 1 else 0)\<rparr>))\<rparr>"

definition toy_env_state :: "nat \<Rightarrow> real \<Rightarrow> 32 word \<Rightarrow> (nat, nat, nat) EnvState" where
  "toy_env_state n d k =
     \<lparr>env_state = n, obs = n, reward = 0, done_flag = d,
      info = \<lparr>steps = k, termination_flag = 0, truncation = 0, ori_obs = None,
              episode_return = None, autoreset = Some 0\<rparr>,
      internal = \<lparr>reset_key = Some 7\<rparr>\<rparr>"

text \<open>
  The state the wrapped env reaches from \<open>reset\<close> (key 0, with \<open>record_ori_obs\<close>) by two
  steps of action 3: position 6, terminated at its second step.
\<close>

definition toy_terminal_state :: "(nat, nat, nat) EnvState" where
  "toy_terminal_state =
     \<lparr>env_state = 6, obs = 6, reward = 3, done_flag = 1,
      info = \<lparr>steps = 2, termination_flag = 1, truncation = 0, ori_obs = Some 6,
              episode_return = None, autoreset = None\<rparr>,
      internal = \<lparr>reset_key = None\<rparr>\<rparr>"

definition toy_rng :: "nat rng" where
  "toy_rng = \<lparr>random_split = (\<lambda>k n. map (\<lambda>i. k + i) [0..<n]),
              rng_split = (\<lambda>k. (2 * k, 2 * k + 1))\<rparr>"

definition toy_episode_env :: "(nat, nat, (nat, nat, nat) EnvState) Env" where
  "toy_episode_env =
     \<lparr>env_reset = EpisodeWrapper_reset (OneEpisodeWrapper 3 False) toy_env 0,
      env_step = EpisodeWrapper_step (OneEpisodeWrapper 3 False) toy_env\<rparr>"

text \<open>
  A TD3 update whose gradient steps are replaced by simple functions of the minibatch (a
  natural number): the critic step writes the minibatch into the critic's only leaf, the
  actor step writes it and its successor into the actor's leaf. Keys are natural numbers.
\<close>

definition toy_split :: "nat \<Rightarrow> nat \<Rightarrow> nat list" where
  "toy_split k n = map (\<lambda>i. 10 * k + i) [0..<n]"

definition toy_td3_update_ops :: "(nat, unit, nat, nat, real, unit) td3_update_ops" where
  "toy_td3_update_ops =
     \<lparr>random_split = toy_split, rng_split = (\<lambda>k. (2 * k, 2 * k + 1)),
      critic_update_fn = (\<lambda>opt a b k.
         ((real b, ()),
          a\<lparr>params := (params a)\<lparr>critic_params := Node [(''w'', Leaf [real b])]\<rparr>\<rparr>,
          opt + 1)),
      actor_update_fn = (\<lambda>opt a b k.
         ((- real b, ()),
          a\<lparr>params := (params a)\<lparr>actor_params := Leaf [real b, real b + 1]\<rparr>\<rparr>,
          opt + 1))\<rparr>"

definition toy_td3_agent_state :: "unit td3_agent_state" where
  "toy_td3_agent_state =
     \<lparr>params = \<lparr>actor_params = Leaf [1, 2], critic_params = Node [(''w'', Leaf [3])],
                 target_actor_params = Leaf [0, 0],
                 target_critic_params = Node [(''w'', Leaf [1])]\<rparr>,
      obs_preprocessor_state = ()\<rparr>"

definition toy_td3_config :: td3_config where
  "toy_td3_config = \<lparr>actor_update_interval = 2, tau = 1 / 4\<rparr>"

text \<open>
  A rollout tensor whose entry at time \<open>t\<close> and column \<open>i\<close> is the pair \<open>(t, i)\<close>, and
  the done flags of two envs that finish at their second and third step.
\<close>

definition toy_grid :: "nat \<Rightarrow> nat \<Rightarrow> (nat \<times> nat) list list" where
  "toy_grid T n = map (\<lambda>t. map (\<lambda>i. (t, i)) [0..<n]) [0..<T]"

definition toy_dones :: "real list list" where
  "toy_dones = [[0, 0], [1, 0], [1, 1]]"

text \<open>
  A small ERL-Origin workflow. Individuals, keys and transitions are natural numbers and
  the replay buffer is the list of the transitions added to it. An individual \<open>p\<close> is
  rolled out in two envs for two steps, with returns \<open>p\<close> and \<open>p + 2\<close>; in an EC rollout
  its episodes last one and two steps, in an RL rollout two steps each. \<open>tell\<close> reverses
  the population, and one TD3 update adds one to every RL actor. The numbers that are
  multiplied in \<open>float32\<close> (small integers and 1/4) are \<open>float32\<close> values, so the rounding
  leaves them as they are.
\<close>

definition toy_origin_ops ::
  "(nat, nat, nat, unit, nat, nat, nat list, unit) erl_origin_ops" where
  "toy_origin_ops =
     \<lparr>random_split = toy_split, rng_split = (\<lambda>k. (2 * k, 2 * k + 1)),
      ec_collector_evaluate = (\<lambda>ag n ks.
         (\<lparr>episode_returns = map (\<lambda>p. [real p, real p + 2]) (actor_params (params ag)),
           episode_lengths = map (\<lambda>p. [1, 2]) (actor_params (params ag))\<rparr>,
          map (\<lambda>p. [[p, p + 100], [p, p + 100]]) (actor_params (params ag)))),
      rl_collector_evaluate = (\<lambda>ag n ks.
         (\<lparr>episode_returns = map (\<lambda>p. [real p, real p + 2]) (actor_params (params ag)),
           episode_lengths = map (\<lambda>p. [2, 2]) (actor_params (params ag))\<rparr>,
          map (\<lambda>p. [[p, p + 100], [p, p + 100]]) (actor_params (params ag)))),
      clean_trajectory = (\<lambda>x. x),
      flatten_pop_rollout_episode = (\<lambda>x. map concat (transpose x)),
      ec_optimizer_tell = (\<lambda>ec p fs. ec\<lparr>pop := rev p\<rparr>),
      replay_buffer_add = (\<lambda>rb xs. rb @ xs),
      replay_buffer_sample = (\<lambda>rb k. take 2 rb),
      get_buffer_size = length,
      rl_update_fn = (\<lambda>ag os batches k.
         Some ((ag\<lparr>params := (params ag)\<lparr>actor_params :=
                   map (\<lambda>p. p + 1) (actor_params (params ag))\<rparr>\<rparr>, os + 1),
               (real (length (concat batches)), 0, [], []))),
      float32 = (\<lambda>x. x)\<rparr>"

definition toy_config :: "int \<Rightarrow> int \<Rightarrow> erl_config" where
  "toy_config w k =
     \<lparr>actor_update_interval = 2, tau = 1 / 2, pop_size = 3, num_rl_agents = 1,
      episodes_for_fitness = 1, rollout_episodes = 1, warmup_iters = w,
      rl_injection_interval = k, rl_updates_frac_per_iter = 1 / 4, total_episodes = 6,
      eval_interval = 2, save_replay_buffer = False, num_learning_offspring = 1\<rparr>"

definition toy_metrics :: "32 word \<Rightarrow> WorkflowMetric" where
  "toy_metrics it =
     \<lparr>sampled_timesteps = 0, sampled_episodes = 0, rl_sampled_timesteps = 0,
      iterations = it\<rparr>"

definition toy_agent_state :: "(nat, nat, unit) erl_agent_state" where
  "toy_agent_state =
     \<lparr>params = \<lparr>actor_params = [50], critic_params = Some 0,
                 target_actor_params = [50], target_critic_params = Some 0\<rparr>,
      obs_preprocessor_state = ()\<rparr>"

definition toy_state ::
  "32 word \<Rightarrow> (nat, nat, nat, unit, nat, nat list, (nat, unit) ECState) State" where
  "toy_state it =
     \<lparr>key = 1, metrics = toy_metrics it, agent_state = toy_agent_state, opt_state = 0,
      ec_opt_state = \<lparr>pop = [3, 1, 2], external_pop = [], ec_rest = ()\<rparr>,
      replay_buffer_state = Some []\<rparr>"

text \<open>What is observed of the result of a step of the small workflows.\<close>

definition step_view ::
  "(call list \<times> unit POPTrainMetric
      \<times> (nat, nat, nat, unit, nat, nat list, (nat, unit) ECState) State) option
    \<Rightarrow> (call list \<times> nat list \<times> nat list \<times> nat list \<times> nat list option \<times> 32 word) option" where
  "step_view r =
     map_option
       (\<lambda>(calls, tm, st').
          (calls, pop (ec_opt_state st'), external_pop (ec_opt_state st'),
           actor_params (params (agent_state st')), replay_buffer_state st',
           iterations (metrics st')))
       r"

text \<open>
  A small ERL-GA workflow. \<open>ask\<close> returns the population as it is;
  both \<open>tell\<close> and \<open>tell_external\<close> return as their info the fitness vector they were
  given; \<open>tell\<close> reverses the population and \<open>tell_external\<close> puts the external
  individuals in place of the first members. A rollout appends the actors it ran to the
  buffer, and the TD3 update reports the size of the buffer it was given as its actor loss
  and adds one to every RL actor.
\<close>

definition toy_ga_ops ::
  "(nat, nat, nat, unit, nat, nat, nat list, unit, real list) erl_ga_ops" where
  "toy_ga_ops =
     \<lparr>random_split = toy_split, rng_split = (\<lambda>k. (2 * k, 2 * k + 1)),
      ga_ask = (\<lambda>ec. (pop ec, ec)),
      ga_tell = (\<lambda>ec fs. (fs, ec\<lparr>pop := rev (pop ec)\<rparr>)),
      ga_tell_external = (\<lambda>ec fs.
         (fs, ec\<lparr>pop := external_pop ec @ drop (length (external_pop ec)) (pop ec)\<rparr>)),
      erl_replace_td3_actor_params = (\<lambda>ag ps.
         ag\<lparr>params := (params ag)\<lparr>actor_params := ps\<rparr>\<rparr>),
      ga_ec_rollout = (\<lambda>ag rb k.
         (\<lparr>episode_returns = map (\<lambda>p. [real p, real p + 2]) (actor_params (params ag)),
           episode_lengths = map (\<lambda>p. [1, 2]) (actor_params (params ag))\<rparr>,
          map (\<lambda>p. [p, p + 100]) (actor_params (params ag)),
          rb @ actor_params (params ag))),
      ga_rl_rollout = (\<lambda>ag rb k.
         (\<lparr>episode_returns = map (\<lambda>p. [real p, real p + 2]) (actor_params (params ag)),
           episode_lengths = map (\<lambda>p. [2, 2]) (actor_params (params ag))\<rparr>,
          map (\<lambda>p. [p, p + 100]) (actor_params (params ag)),
          rb @ actor_params (params ag))),
      ga_rl_update = (\<lambda>ag os rb k.
         (\<lparr>critic_loss = 0, actor_loss = real (length rb), num_updates_per_iter = 1,
           raw_loss_dict = []\<rparr>,
          ag\<lparr>params := (params ag)\<lparr>actor_params :=
                map (\<lambda>p. p + 1) (actor_params (params ag))\<rparr>\<rparr>,
          os + 1)),
      ga_buffer_size = length\<rparr>"

text \<open>What is observed of the result of a step of the small ERL-GA workflow.\<close>

text \<open>
  The state of the small ERL-GA workflow: its optimizer state has an external slot of
  \<open>num_rl_agents = 1\<close> row, as the optimizer's \<open>init\<close> allocates it.
\<close>

definition toy_ga_state ::
  "32 word \<Rightarrow> (nat, nat, nat, unit, nat, nat list, (nat, unit) ECState) State" where
  "toy_ga_state it =
     \<lparr>key = 1, metrics = toy_metrics it, agent_state = toy_agent_state, opt_state = 0,
      ec_opt_state = \<lparr>pop = [3, 1, 2], external_pop = [9], ec_rest = ()\<rparr>,
      replay_buffer_state = Some []\<rparr>"

definition ga_step_view ::
  "(call list \<times> real list POPTrainMetric
      \<times> (nat, nat, nat, unit, nat, nat list, (nat, unit) ECState) State) option
    \<Rightarrow> (call list \<times> real list option \<times> nat list \<times> nat list \<times> nat list
         \<times> nat list option \<times> real option) option" where
  "ga_step_view r =
     map_option
       (\<lambda>(calls, tm, st').
          (calls, ec_info tm, pop (ec_opt_state st'), external_pop (ec_opt_state st'),
           actor_params (params (agent_state st')), replay_buffer_state st',
           map_option actor_loss (rl_metrics tm)))
       r"

text \<open>
  The steps of the two small workflows as the learn loops call them, an evaluation that
  returns the state as it is, and what is observed of the result of a learn loop: the
  replay-buffer state of the final state and of every record handed to the checkpoint
  manager.
\<close>

definition toy_origin_step ::
  "erl_config \<Rightarrow> (nat, nat, nat, unit, nat, nat list, (nat, unit) ECState) State
    \<Rightarrow> (unit POPTrainMetric
         \<times> (nat, nat, nat, unit, nat, nat list, (nat, unit) ECState) State) option" where
  "toy_origin_step config st = map_option snd (ERLWorkflow_step toy_origin_ops config st)"

definition toy_ga_step ::
  "erl_config \<Rightarrow> (nat, nat, nat, unit, nat, nat list, (nat, unit) ECState) State
    \<Rightarrow> (real list POPTrainMetric
         \<times> (nat, nat, nat, unit, nat, nat list, (nat, unit) ECState) State) option" where
  "toy_ga_step config st = map_option snd (ERLGAWorkflow_step toy_ga_ops config st)"

definition toy_evaluate ::
  "(nat, nat, nat, unit, nat, nat list, (nat, unit) ECState) State
    \<Rightarrow> unit \<times> (nat, nat, nat, unit, nat, nat list, (nat, unit) ECState) State" where
  "toy_evaluate st = ((), st)"

definition learn_view ::
  "((nat, nat, nat, unit, nat, nat list, (nat, unit) ECState) State
     \<times> (int \<times> (nat, nat, nat, unit, nat, nat list, (nat, unit) ECState) State) list) option
    \<Rightarrow> (nat list option \<times> (int \<times> nat list option) list) option" where
  "learn_view r =
     map_option
       (\<lambda>(st', saves).
          (replay_buffer_state st', map (\<lambda>(i, saved). (i, replay_buffer_state saved)) saves))
       r"




section \<open>Properties of the environment wrappers\<close>

text \<open>
  C7. After a step of the episode wrapper (the inner environment having returned the
  state \<open>s1\<close>), the step returns a state \<open>s'\<close> in which: the step counter is the
  previous one, reset to zero after a finished episode, plus one; \<open>info.termination\<close> is
  the inner environment's done flag; \<open>info.truncation\<close> is \<open>1 - done\<close> of the inner
  environment when the counter has reached \<open>episode_length\<close> and 0 otherwise, so it is 1
  exactly when the time limit is hit without termination and 0 when both coincide; and
  the returned done flag is set iff the inner environment terminated or the counter
  reached \<open>episode_length\<close>.
\<close>

theorem EpisodeWrapper_step_flags:
  assumes "env_step env s a = Some s1"
      and "record_episode_return w \<longrightarrow> episode_return (info s) \<noteq> None"
  shows "\<exists>s'. EpisodeWrapper_step w env s a = Some s'
     \<and> steps (info s') = steps (info s) * astype_int32 (1 - done_flag s) + 1
     \<and> termination_flag (info s') = done_flag s1
     \<and> truncation (info s') =
          (if episode_length w \<le> sint (steps (info s')) then 1 - done_flag s1 else 0)
     \<and> (truncation (info s') = 1 \<longleftrightarrow>
          episode_length w \<le> sint (steps (info s')) \<and> done_flag s1 = 0)
     \<and> (done_flag s1 = 1 \<longrightarrow> truncation (info s') = 0)
     \<and> done_flag s' = (if episode_length w \<le> sint (steps (info s')) then 1 else done_flag s1)
     \<and> (done_flag s' \<noteq> 0 \<longleftrightarrow>
          done_flag s1 \<noteq> 0 \<or> episode_length w \<le> sint (steps (info s')))"
  using assms
  by (cases "episode_return (info s)")
     (auto simp: EpisodeWrapper_step_def Let_def)

theorem EpisodeWrapper_step_flags_witness:
  "\<exists>s'. EpisodeWrapper_step (OneEpisodeWrapper 3 True) toy_env (toy_env_state 0 0 2) 1 = Some s'
     \<and> steps (info s') = 3 \<and> termination_flag (info s') = 0
     \<and> truncation (info s') = 1 \<and> done_flag s' = 1"
proof -
  have h1: "env_step toy_env (toy_env_state 0 0 2) 1 = Some ((toy_env_state 1 0 2)\<lparr>reward := 1\<rparr>)"
    by (simp add: toy_env_def toy_env_state_def)
  have h2: "record_episode_return (OneEpisodeWrapper 3 True)
              \<longrightarrow> episode_return (info (toy_env_state 0 0 2)) \<noteq> None"
    by (simp add: OneEpisodeWrapper_def)
  from EpisodeWrapper_step_flags [OF h1 h2] show ?thesis
    by (auto simp: toy_env_state_def OneEpisodeWrapper_def astype_int32_def float_to_int_def)
qed

lemma run_steps_fixed:
  "(\<And>a. a \<in> set as \<Longrightarrow> step1 s a = Some s) \<Longrightarrow> run_steps step1 s as = Some s"
  by (induction as) auto

text \<open>
  A step of the DISABLED discipline raises whenever the traced \<open>_step\<close> raises or returns
  a state of another structure, also on a state whose done flag is set. The traced \<open>_step\<close>
  returns a state of the same structure when the inner env does and the state has the
  keys the wrapper writes.
\<close>

lemma OneEpisodeWrapper_step_raises:
  "EpisodeWrapper_step w env s a = None \<Longrightarrow> OneEpisodeWrapper_step w env s a = None"
  "EpisodeWrapper_step w env s a = Some s' \<Longrightarrow> \<not> EnvState_same_structure s s'
     \<Longrightarrow> OneEpisodeWrapper_step w env s a = None"
  by (simp_all add: OneEpisodeWrapper_step_def dummy_step_def)

lemma EpisodeWrapper_step_same_structure:
  assumes "env_step env s a = Some s1" and "EnvState_same_structure s s1"
      and "record_ori_obs w \<longrightarrow> ori_obs (info s) \<noteq> None"
      and "record_episode_return w \<longrightarrow> episode_return (info s) \<noteq> None"
  shows "\<exists>s'. EpisodeWrapper_step w env s a = Some s' \<and> EnvState_same_structure s s'"
  using assms
  by (cases "episode_return (info s)")
     (auto simp: EpisodeWrapper_step_def EnvState_same_structure_def Let_def)

text \<open>
  C8. Under the DISABLED discipline (\<open>OneEpisodeWrapper\<close>), a state whose done flag is set
  is returned unchanged by \<open>step\<close>, whatever the action, and therefore by every further
  sequence of steps. The state is one on which \<open>jax.lax.cond\<close> can trace the step: for the
  actions concerned \<open>_step\<close> returns, with a state of the same structure (as it does on
  every state that \<open>reset\<close> and \<open>step\<close> of this wrapper produce over an inner env that
  keeps its structure).
\<close>

theorem OneEpisodeWrapper_step_done_noop:
  assumes "done_flag s \<noteq> 0"
      and "\<forall>b \<in> set (a # as).
             \<exists>s'. EpisodeWrapper_step w env s b = Some s' \<and> EnvState_same_structure s s'"
  shows "OneEpisodeWrapper_step w env s a = Some s
       \<and> run_steps (OneEpisodeWrapper_step w env) s as = Some s"
proof -
  have "\<And>b. b \<in> set (a # as) \<Longrightarrow> OneEpisodeWrapper_step w env s b = Some s"
    using assms by (auto simp: OneEpisodeWrapper_step_def dummy_step_def)
  then show ?thesis by (simp add: run_steps_fixed)
qed

theorem OneEpisodeWrapper_step_done_noop_witness:
  "\<exists>s0. EpisodeWrapper_reset (OneEpisodeWrapper 3 True) toy_env 0 0 = Some s0
     \<and> run_steps (OneEpisodeWrapper_step (OneEpisodeWrapper 3 True) toy_env) s0 [3, 3]
         = Some toy_terminal_state
     \<and> done_flag toy_terminal_state \<noteq> 0
     \<and> OneEpisodeWrapper_step (OneEpisodeWrapper 3 True) toy_env toy_terminal_state 1
         = Some toy_terminal_state
     \<and> run_steps (OneEpisodeWrapper_step (OneEpisodeWrapper 3 True) toy_env)
         toy_terminal_state [1, 2, 3] = Some toy_terminal_state"
proof -
  have r: "\<exists>s0. EpisodeWrapper_reset (OneEpisodeWrapper 3 True) toy_env 0 0 = Some s0
     \<and> run_steps (OneEpisodeWrapper_step (OneEpisodeWrapper 3 True) toy_env) s0 [3, 3]
         = Some toy_terminal_state"
    by (simp add: EpisodeWrapper_reset_def OneEpisodeWrapper_step_def EpisodeWrapper_step_def
        EnvState_same_structure_def dummy_step_def OneEpisodeWrapper_def toy_env_def
        toy_terminal_state_def astype_int32_def float_to_int_def Let_def)
  have h: "done_flag toy_terminal_state \<noteq> 0" by (simp add: toy_terminal_state_def)
  have t: "\<forall>b \<in> set (1 # [1, 2, 3]).
             \<exists>s'. EpisodeWrapper_step (OneEpisodeWrapper 3 True) toy_env toy_terminal_state b
                     = Some s'
                 \<and> EnvState_same_structure toy_terminal_state s'"
    by (simp add: EpisodeWrapper_step_def EnvState_same_structure_def OneEpisodeWrapper_def
        toy_env_def toy_terminal_state_def Let_def)
  from OneEpisodeWrapper_step_done_noop [OF h t] r h show ?thesis by blast
qed

text \<open>
  On a state that lacks the key \<open>ori_obs\<close> while the wrapper records it, the traced
  \<open>_step\<close> returns a state with one more key and the step fails, done flag or not.
\<close>

lemma OneEpisodeWrapper_step_raises_toy:
  "ori_obs (info (toy_env_state 4 1 3)) = None"
  "OneEpisodeWrapper_step (OneEpisodeWrapper 3 True) toy_env (toy_env_state 4 1 3) 1 = None"
  by (simp_all add: OneEpisodeWrapper_step_def EpisodeWrapper_step_def
      EnvState_same_structure_def dummy_step_def OneEpisodeWrapper_def toy_env_def
      toy_env_state_def Let_def)

text \<open>The same for a bank of environments: a finished env of the bank keeps its state.\<close>

lemma those_map_nth:
  "those (map f xs) = Some ys \<Longrightarrow> i < length xs \<Longrightarrow> f (xs ! i) = Some (ys ! i)"
proof (induction xs arbitrary: ys i)
  case Nil
  then show ?case by simp
next
  case (Cons x xs)
  then show ?case
    by (cases i) (auto split: option.splits)
qed

lemma those_map_length:
  "those (map f xs) = Some ys \<Longrightarrow> length ys = length xs"
  by (induction xs arbitrary: ys) (auto split: option.splits)

lemma VmapWrapper_step_nth:
  assumes "VmapWrapper_step step1 states actions = Some states'"
      and "i < length states"
  shows "step1 (states ! i) (actions ! i) = Some (states' ! i)"
proof -
  from assms(1) have len: "length states = length actions"
    and th: "those (map (\<lambda>(s, a). step1 s a) (zip states actions)) = Some states'"
    by (auto simp: VmapWrapper_step_def split: if_splits)
  from assms(2) len have "i < length (zip states actions)" by simp
  from those_map_nth [OF th this] assms(2) len show ?thesis by simp
qed

lemma VmapWrapper_step_done_noop:
  assumes "VmapWrapper_step (OneEpisodeWrapper_step w env) states actions = Some states'"
      and "i < length states" and "done_flag (states ! i) \<noteq> 0"
  shows "states' ! i = states ! i"
  using VmapWrapper_step_nth [OF assms(1,2)] assms(3)
  by (auto simp: OneEpisodeWrapper_step_def dummy_step_def split: option.splits if_splits)

text \<open>
  C10. The fourth mode, ENVPOOL. At the bank of two envs whose first env has its done
  flag set, the step returns for the first env a freshly reset state (position 15, the
  reset key advanced from 7 to 14) and steps the second env normally, but
  \<open>info.autoreset\<close> of the first env is 0 and not the previous done flag 1: the flag
  written to the stepped state is replaced, like every other leaf, by the one of the
  reset state, which \<open>reset\<close> has set to zero.
\<close>

theorem VmapEnvPoolAutoResetWrapper_step_autoreset_lost:
  "map done_flag [toy_env_state 9 1 3, toy_env_state 1 0 1] = [1, 0]
   \<and> map_option (map (\<lambda>s. (env_state s, reset_key (internal s), autoreset (info s))))
       (VmapEnvPoolAutoResetWrapper_step toy_rng toy_episode_env 2
          [toy_env_state 9 1 3, toy_env_state 1 0 1] [1, 1])
     = Some [(15, Some 14, Some 0), (2, Some 7, Some 0)]"
  by (simp add: VmapEnvPoolAutoResetWrapper_step_def VmapEnvPoolAutoResetWrapper_reset_def
      VmapWrapper_step_def batch_keys_def where_done_def toy_rng_def toy_episode_env_def
      toy_env_def toy_env_state_def EpisodeWrapper_reset_def EpisodeWrapper_step_def
      OneEpisodeWrapper_def astype_int32_def float_to_int_def Let_def)

lemma AutoresetMode_ENVPOOL:
  "ENVPOOL \<notin> {DISABLED, NORMAL, FAST} \<and> AutoresetMode_value ENVPOOL = ''envpool''"
  by (simp add: AutoresetMode_value_def)

section \<open>Properties of the Polyak update\<close>

lemma same_structure_leaves_length:
  "same_structure (t :: 'a list ptree) s \<Longrightarrow> length (leaves t) = length (leaves s)"
  and same_structure_list_leaves_length:
  "same_structure_list (ts :: (string \<times> 'a list ptree) list) ss
     \<Longrightarrow> length (leaves_list ts) = length (leaves_list ss)"
  by (induction t s and ts ss rule: same_structure_same_structure_list.induct) auto

lemma tree_map2_same_structure:
  "same_structure t s \<Longrightarrow> \<exists>r. tree_map2 (polyak_leaf tu) t s = Some r
      \<and> same_structure r t
      \<and> leaves r = map2 (polyak_entries tu) (leaves t) (leaves s)"
  and tree_map2_list_same_structure:
  "same_structure_list ts ss \<Longrightarrow> \<exists>rs. tree_map2_list (polyak_leaf tu) ts ss = Some rs
      \<and> same_structure_list rs ts
      \<and> leaves_list rs = map2 (polyak_entries tu) (leaves_list ts) (leaves_list ss)"
proof (induction t s and ts ss rule: same_structure_same_structure_list.induct)
  case (1 x y)
  then show ?case by (simp add: polyak_leaf_def polyak_entries_def)
next
  case (6 kx xs ky ys)
  from "6.prems" have k: "fst kx = fst ky" and s1: "same_structure (snd kx) (snd ky)"
    and s2: "same_structure_list xs ys" by simp_all
  from "6.IH"(1) [OF s1] obtain r where
    r: "tree_map2 (polyak_leaf tu) (snd kx) (snd ky) = Some r" "same_structure r (snd kx)"
       "leaves r = map2 (polyak_entries tu) (leaves (snd kx)) (leaves (snd ky))"
    by blast
  from "6.IH"(2) [OF s2] obtain rs where
    rs: "tree_map2_list (polyak_leaf tu) xs ys = Some rs" "same_structure_list rs xs"
        "leaves_list rs = map2 (polyak_entries tu) (leaves_list xs) (leaves_list ys)"
    by blast
  have len: "length (leaves (snd kx)) = length (leaves (snd ky))"
    by (rule same_structure_leaves_length [OF s1])
  have "tree_map2_list (polyak_leaf tu) (kx # xs) (ky # ys) = Some ((fst kx, r) # rs)"
    using k r(1) rs(1) by simp
  moreover have "same_structure_list ((fst kx, r) # rs) (kx # xs)"
    using r(2) rs(2) by simp
  moreover have "leaves_list ((fst kx, r) # rs)
      = map2 (polyak_entries tu) (leaves_list (kx # xs)) (leaves_list (ky # ys))"
    using r(3) rs(3) len by simp
  ultimately show ?case by blast
qed auto

lemma polyak_entries_0: "length t = length s \<Longrightarrow> polyak_entries 0 t s = t"
  by (induction t s rule: list_induct2) (auto simp: polyak_entries_def)

lemma polyak_entries_1: "length t = length s \<Longrightarrow> polyak_entries 1 t s = s"
  by (induction t s rule: list_induct2) (auto simp: polyak_entries_def)

lemma tree_map2_tau0:
  "same_structure t s \<Longrightarrow> tree_map2 (polyak_leaf 0) t s = Some t"
  and tree_map2_list_tau0:
  "same_structure_list ts ss \<Longrightarrow> tree_map2_list (polyak_leaf 0) ts ss = Some ts"
  by (induction t s and ts ss rule: same_structure_same_structure_list.induct)
     (auto simp: polyak_leaf_def polyak_entries_0)

lemma tree_map2_tau1:
  "same_structure t s \<Longrightarrow> tree_map2 (polyak_leaf 1) t s = Some s"
  and tree_map2_list_tau1:
  "same_structure_list ts ss \<Longrightarrow> tree_map2_list (polyak_leaf 1) ts ss = Some ss"
  by (induction t s and ts ss rule: same_structure_same_structure_list.induct)
     (auto simp: polyak_leaf_def polyak_entries_1)

lemma soft_target_update_same_structure:
  assumes "same_structure target source"
  shows "\<exists>r. soft_target_update target source tu = Some r \<and> same_structure r target
           \<and> leaves r = map2 (\<lambda>t s. map2 (\<lambda>x y. tu * y + (1 - tu) * x) t s)
                            (leaves target) (leaves source)"
    and "soft_target_update target source 0 = Some target"
    and "soft_target_update target source 1 = Some source"
proof -
  have e: "polyak_entries tu = (\<lambda>t s. map2 (\<lambda>x y. tu * y + (1 - tu) * x) t s)"
    by (intro ext) (simp add: polyak_entries_def)
  from tree_map2_same_structure [OF assms, of tu]
  show "\<exists>r. soft_target_update target source tu = Some r \<and> same_structure r target
           \<and> leaves r = map2 (\<lambda>t s. map2 (\<lambda>x y. tu * y + (1 - tu) * x) t s)
                            (leaves target) (leaves source)"
    unfolding e by (simp add: soft_target_update_def)
  show "soft_target_update target source 0 = Some target"
    using assms by (simp add: soft_target_update_def tree_map2_tau0)
  show "soft_target_update target source 1 = Some source"
    using assms by (simp add: soft_target_update_def tree_map2_tau1)
qed

text \<open>
  C6. For identically structured trees, \<open>soft_target_update(target, source, tau)\<close>
  returns, for every \<open>tau\<close>, a tree of the same structure whose leaves are, entry by entry,
  \<open>tau * source + (1 - tau) * target\<close>; with \<open>tau = 0\<close> it returns the target tree and
  with \<open>tau = 1\<close> the source tree. Every TD3 update step ends by applying it to the
  target actor and to the target critic: when the gradient updates have produced the agent
  state \<open>a2\<close>, \<open>_update_fn\<close> returns an agent state whose live parameters are those of
  \<open>a2\<close> and whose target parameters have the leaves
  \<open>tau * live + (1 - tau) * target\<close> of the parameters of \<open>a2\<close>; with \<open>tau = 0\<close> the
  targets keep their prior value and with \<open>tau = 1\<close> they equal the live parameters.
\<close>

theorem soft_target_update_polyak:
  "(\<forall>target source tu. same_structure target source \<longrightarrow>
      (\<exists>r. soft_target_update target source tu = Some r \<and> same_structure r target
         \<and> leaves r = map2 (\<lambda>t s. map2 (\<lambda>x y. tu * y + (1 - tu) * x) t s)
                          (leaves target) (leaves source))
      \<and> soft_target_update target source 0 = Some target
      \<and> soft_target_update target source 1 = Some source)
   \<and> (gradient_updates config ops ag0 os0 sample_batches k0
         = Some (a2, copt, aopt, closs, aloss)
       \<and> same_structure (target_actor_params (params a2)) (actor_params (params a2))
       \<and> same_structure (target_critic_params (params a2)) (critic_params (params a2))
      \<longrightarrow> (\<exists>a' o' ti.
            update_fn config ops ag0 os0 sample_batches k0 = Some ((a', o'), ti)
          \<and> Some (target_actor_params (params a'))
              = soft_target_update (target_actor_params (params a2))
                  (actor_params (params a2)) (tau config)
          \<and> Some (target_critic_params (params a'))
              = soft_target_update (target_critic_params (params a2))
                  (critic_params (params a2)) (tau config)
          \<and> leaves (target_actor_params (params a'))
              = map2 (\<lambda>t s. map2 (\<lambda>x y. tau config * y + (1 - tau config) * x) t s)
                  (leaves (target_actor_params (params a2)))
                  (leaves (actor_params (params a2)))
          \<and> leaves (target_critic_params (params a'))
              = map2 (\<lambda>t s. map2 (\<lambda>x y. tau config * y + (1 - tau config) * x) t s)
                  (leaves (target_critic_params (params a2)))
                  (leaves (critic_params (params a2)))
          \<and> actor_params (params a') = actor_params (params a2)
          \<and> critic_params (params a') = critic_params (params a2)
          \<and> (tau config = 0 \<longrightarrow>
                target_actor_params (params a') = target_actor_params (params a2)
              \<and> target_critic_params (params a') = target_critic_params (params a2))
          \<and> (tau config = 1 \<longrightarrow>
                target_actor_params (params a') = actor_params (params a')
              \<and> target_critic_params (params a') = critic_params (params a'))))"
proof (intro conjI allI impI)
  fix target source :: "real list ptree" and tu :: real
  assume s: "same_structure target source"
  show "\<exists>r. soft_target_update target source tu = Some r \<and> same_structure r target
           \<and> leaves r = map2 (\<lambda>t s. map2 (\<lambda>x y. tu * y + (1 - tu) * x) t s)
                            (leaves target) (leaves source)"
    by (rule soft_target_update_same_structure(1) [OF s])
  show "soft_target_update target source 0 = Some target"
    by (rule soft_target_update_same_structure(2) [OF s])
  show "soft_target_update target source 1 = Some source"
    by (rule soft_target_update_same_structure(3) [OF s])
next
  assume h: "gradient_updates config ops ag0 os0 sample_batches k0
         = Some (a2, copt, aopt, closs, aloss)
       \<and> same_structure (target_actor_params (params a2)) (actor_params (params a2))
       \<and> same_structure (target_critic_params (params a2)) (critic_params (params a2))"
  let ?ta = "target_actor_params (params a2)" and ?a = "actor_params (params a2)"
  let ?tc = "target_critic_params (params a2)" and ?c = "critic_params (params a2)"
  let ?f = "\<lambda>t s. map2 (\<lambda>x y. tau config * y + (1 - tau config) * x) t s"
  from h have g: "gradient_updates config ops ag0 os0 sample_batches k0
         = Some (a2, copt, aopt, closs, aloss)"
    and sa: "same_structure ?ta ?a" and sc: "same_structure ?tc ?c" by simp_all
  from soft_target_update_same_structure(1) [OF sa, of "tau config"] obtain ra where
    ra: "soft_target_update ?ta ?a (tau config) = Some ra"
    and la: "leaves ra = map2 ?f (leaves ?ta) (leaves ?a)" by blast
  from soft_target_update_same_structure(1) [OF sc, of "tau config"] obtain rc where
    rc: "soft_target_update ?tc ?c (tau config) = Some rc"
    and lc: "leaves rc = map2 ?f (leaves ?tc) (leaves ?c)" by blast
  obtain cl cd where closs: "closs = (cl, cd)" by (cases closs)
  obtain al ad where aloss: "aloss = (al, ad)" by (cases aloss)
  let ?a' = "a2\<lparr>params := (params a2)\<lparr>target_actor_params := ra,
                 target_critic_params := rc\<rparr>\<rparr>"
  have u: "update_fn config ops ag0 os0 sample_batches k0
      = Some ((?a', os0\<lparr>actor := aopt, critic := copt\<rparr>), (cl, al, cd, ad))"
    using g ra rc closs aloss by (simp add: update_fn_def)
  have t0: "tau config = 0 \<longrightarrow> ra = ?ta \<and> rc = ?tc"
    using ra rc soft_target_update_same_structure(2) [OF sa]
      soft_target_update_same_structure(2) [OF sc] by auto
  have t1: "tau config = 1 \<longrightarrow> ra = ?a \<and> rc = ?c"
    using ra rc soft_target_update_same_structure(3) [OF sa]
      soft_target_update_same_structure(3) [OF sc] by auto
  show "\<exists>a' o' ti.
            update_fn config ops ag0 os0 sample_batches k0 = Some ((a', o'), ti)
          \<and> Some (target_actor_params (params a'))
              = soft_target_update ?ta ?a (tau config)
          \<and> Some (target_critic_params (params a'))
              = soft_target_update ?tc ?c (tau config)
          \<and> leaves (target_actor_params (params a')) = map2 ?f (leaves ?ta) (leaves ?a)
          \<and> leaves (target_critic_params (params a')) = map2 ?f (leaves ?tc) (leaves ?c)
          \<and> actor_params (params a') = ?a
          \<and> critic_params (params a') = ?c
          \<and> (tau config = 0 \<longrightarrow>
                target_actor_params (params a') = ?ta
              \<and> target_critic_params (params a') = ?tc)
          \<and> (tau config = 1 \<longrightarrow>
                target_actor_params (params a') = actor_params (params a')
              \<and> target_critic_params (params a') = critic_params (params a'))"
    using u ra rc la lc t0 t1 by simp
qed

lemma toy_split_3: "toy_split k 3 = [10 * k, 10 * k + 1, 10 * k + 2]"
  by (simp add: toy_split_def upt_rec)
lemma toy_split_2: "toy_split k 2 = [10 * k, 10 * k + 1]"
  by (simp add: toy_split_def upt_rec)

theorem soft_target_update_polyak_witness:
  "tau toy_td3_config = 1 / 4
 \<and> (\<exists>r. soft_target_update (Node [(''w'', Leaf [0, 4]), (''b'', Leaf [1])])
            (Node [(''w'', Leaf [8, 0]), (''b'', Leaf [5])]) (1 / 4) = Some r
        \<and> leaves r = [[2, 3], [2]])
 \<and> (\<exists>a' o' ti.
      update_fn toy_td3_config toy_td3_update_ops toy_td3_agent_state
        \<lparr>actor = 0, critic = 0\<rparr> [5, 7] 0 = Some ((a', o'), ti)
    \<and> actor_params (params a') = Leaf [7, 8]
    \<and> leaves (target_actor_params (params a')) = [[7 / 4, 2]]
    \<and> critic_params (params a') = Node [(''w'', Leaf [7])]
    \<and> leaves (target_critic_params (params a')) = [[5 / 2]])"
proof -
  let ?a2 = "toy_td3_agent_state\<lparr>params :=
       \<lparr>actor_params = Leaf [7, 8], critic_params = Node [(''w'', Leaf [7])],
        target_actor_params = Leaf [0, 0],
        target_critic_params = Node [(''w'', Leaf [1])]\<rparr>\<rparr>"
  have g: "gradient_updates toy_td3_config toy_td3_update_ops toy_td3_agent_state
            \<lparr>actor = 0, critic = 0\<rparr> [5, 7] 0
         = Some (?a2, 2, 1, (7, ()), (- 7, ()))"
    by (simp add: gradient_updates_def toy_td3_config_def toy_td3_update_ops_def
        toy_td3_agent_state_def toy_split_3 toy_split_2 Let_def)
  have s: "same_structure (target_actor_params (params ?a2)) (actor_params (params ?a2))"
          "same_structure (target_critic_params (params ?a2)) (critic_params (params ?a2))"
    by simp_all
  have s0: "same_structure (Node [(''w'', Leaf [0, 4 :: real]), (''b'', Leaf [1])])
              (Node [(''w'', Leaf [8, 0]), (''b'', Leaf [5])])"
    by simp
  from soft_target_update_polyak [THEN conjunct1, rule_format, OF s0,
      THEN conjunct1, of "1 / 4"]
  have 1: "\<exists>r. soft_target_update (Node [(''w'', Leaf [0, 4]), (''b'', Leaf [1])])
                  (Node [(''w'', Leaf [8, 0]), (''b'', Leaf [5])]) (1 / 4) = Some r
              \<and> leaves r = [[2, 3], [2]]"
    by auto
  from soft_target_update_polyak [THEN conjunct2, rule_format, OF conjI [OF g conjI [OF s]]]
  have 2: "\<exists>a' o' ti.
      update_fn toy_td3_config toy_td3_update_ops toy_td3_agent_state
        \<lparr>actor = 0, critic = 0\<rparr> [5, 7] 0 = Some ((a', o'), ti)
    \<and> actor_params (params a') = Leaf [7, 8]
    \<and> leaves (target_actor_params (params a')) = [[7 / 4, 2]]
    \<and> critic_params (params a') = Node [(''w'', Leaf [7])]
    \<and> leaves (target_critic_params (params a')) = [[5 / 2]]"
    by (auto simp: toy_td3_config_def)
  have "tau toy_td3_config = 1 / 4" by (simp add: toy_td3_config_def)
  with 1 2 show ?thesis by blast
qed

section \<open>Properties of the replay-buffer insertion\<close>

lemma enumerate_map_nth: "enumerate 0 xs = map (\<lambda>i. (i, xs ! i)) [0..<length xs]"
  by (rule nth_equalityI) (simp_all add: nth_enumerate_eq)

lemma map_take_upt: "n \<le> length xs \<Longrightarrow> map f (take n xs) = map (\<lambda>j. f (xs ! j)) [0..<n]"
  by (simp add: list_eq_iff_nth_eq)

lemma int_sum_list_nat:
  "\<forall>l \<in> set ls. (0::int) \<le> l \<Longrightarrow> int (sum_list (map nat ls)) = sum_list ls"
  by (induction ls) auto

lemma sum_list_concat_int: "sum_list (concat (L :: int list list)) = sum_list (map sum_list L)"
  by (induction L) auto

lemma concat_valid_content:
  assumes sh: "has_shape T n x" and len: "length lens = n" and ne: "lens \<noteq> []"
      and rng: "\<forall>l \<in> set lens. 0 \<le> l \<and> l \<le> int T"
  shows "concat_valid lens x
       = Some (concat (map (\<lambda>i. map (\<lambda>t. x ! t ! i) [0..<nat (lens ! i)]) [0..<n]))"
proof -
  have row: "\<And>i t. i < n \<Longrightarrow> t < T \<Longrightarrow> jnp_index (x ! t) i = x ! t ! i"
    using sh by (simp add: has_shape_def jnp_index_def)
  have "\<And>i. i < n \<Longrightarrow>
      map (\<lambda>row. jnp_index row i) (py_slice_to (lens ! i) x)
        = map (\<lambda>t. x ! t ! i) [0..<nat (lens ! i)]"
  proof -
    fix i assume i: "i < n"
    with len have "lens ! i \<in> set lens" by simp
    with rng have b: "0 \<le> lens ! i" "nat (lens ! i) \<le> T" by auto
    then have "py_slice_to (lens ! i) x = take (nat (lens ! i)) x"
      by (simp add: py_slice_to_def)
    moreover have "nat (lens ! i) \<le> length x" using b sh by (simp add: has_shape_def)
    ultimately show "map (\<lambda>row. jnp_index row i) (py_slice_to (lens ! i) x)
        = map (\<lambda>t. x ! t ! i) [0..<nat (lens ! i)]"
      using row [OF i] b by (simp add: map_take_upt)
  qed
  then have "map (\<lambda>(i, t). map (\<lambda>row. jnp_index row i) (py_slice_to t x)) (enumerate 0 lens)
      = map (\<lambda>i. map (\<lambda>t. x ! t ! i) [0..<nat (lens ! i)]) [0..<n]"
    using len by (simp add: enumerate_map_nth)
  then show ?thesis using ne by (simp add: concat_valid_def)
qed

lemma concat_valid_length:
  assumes len: "length lens = n" and rng: "\<forall>l \<in> set lens. (0::int) \<le> l"
  shows "int (length (concat (map (\<lambda>i. map (\<lambda>t. f t i) [0..<nat (lens ! i)]) [0..<n])))
       = sum_list lens"
proof -
  have "map (\<lambda>i. nat (lens ! i)) [0..<n] = map nat lens"
    using len by (simp add: list_eq_iff_nth_eq)
  then have "length (concat (map (\<lambda>i. map (\<lambda>t. f t i) [0..<nat (lens ! i)]) [0..<n]))
      = sum_list (map nat lens)"
    by (simp add: length_concat comp_def)
  then show ?thesis using int_sum_list_nat [OF rng] by simp
qed

lemma validity_mask_rows:
  assumes "has_shape T n dones" and "0 < T"
  shows "validity_mask dones = replicate n True # map (map logical_not) (butlast dones)"
proof -
  from assms obtain row rest where d: "dones = row # rest" and r: "length row = n"
    by (cases dones) (auto simp: has_shape_def)
  have "take (length rest) (row # rest) = butlast (row # rest)"
    by (simp add: butlast_conv_take)
  then show ?thesis using d r
    by (simp add: validity_mask_def right_shift_with_padding_def logical_not_def
        map_replicate_const)
qed

lemma has_shape_validity_mask:
  assumes "has_shape T n dones" and "0 < T"
  shows "has_shape T n (validity_mask dones)"
  using assms validity_mask_rows [OF assms]
  by (auto simp: has_shape_def dest: in_set_butlastD)

lemma length_concat_has_shape: "has_shape T n x \<Longrightarrow> length (concat x) = T * n"
proof -
  assume "has_shape T n x"
  then have "map length x = replicate T n"
    by (auto simp: has_shape_def map_replicate_const [symmetric] intro: map_cong)
  then show ?thesis by (simp add: length_concat sum_list_replicate)
qed

lemma length_masked_items:
  "length xs = length ms \<Longrightarrow> length (masked_items xs ms) = length (filter id ms)"
  by (induction xs ms rule: list_induct2) (auto simp: masked_items_def)

lemma sum_list_swap:
  "sum_list (map (\<lambda>i. sum_list (map (\<lambda>r. g r i) rs)) js)
     = (sum_list (map (\<lambda>r. sum_list (map (\<lambda>i. g r i) js)) rs) :: int)"
  by (induction rs) (simp_all add: sum_list_addf)

lemma sum_list_ones: "sum_list (map (\<lambda>i. 1) js) = int (length js)"
  by (induction js) auto

lemma zero_flags_sum:
  "\<forall>d \<in> set r. d = 0 \<or> d = (1::real) \<Longrightarrow>
     sum_list (map (\<lambda>d. 1 - float_to_int d) r) = int (length (filter logical_not r))"
  by (induction r) (auto simp: float_to_int_def logical_not_def)

lemma masked_insert_items_length:
  assumes tr: "has_shape T n trajectory" and dn: "has_shape T n dones" and T: "0 < T"
      and fl: "\<forall>row \<in> set dones. \<forall>d \<in> set row. d = 0 \<or> d = 1"
  shows "int (length (masked_insert_items trajectory dones))
           = sum_list (compute_episode_length dones)"
proof -
  let ?rs = "butlast dones"
  from dn T obtain row rest where d: "dones = row # rest" and r: "length row = n"
    by (cases dones) (auto simp: has_shape_def)
  have rows: "\<And>r. r \<in> set ?rs \<Longrightarrow> length r = n \<and> (\<forall>d \<in> set r. d = 0 \<or> d = 1)"
    using dn fl by (auto simp: has_shape_def dest: in_set_butlastD)
  have "length (collapse trajectory) = length (collapse (validity_mask dones))"
    using length_concat_has_shape [OF tr]
      length_concat_has_shape [OF has_shape_validity_mask [OF dn T]]
    by (simp add: collapse_def)
  then have "length (masked_insert_items trajectory dones)
      = length (filter id (concat (validity_mask dones)))"
    by (simp add: masked_insert_items_def length_masked_items collapse_def)
  also have "\<dots> = n + sum_list (map (\<lambda>r. length (filter logical_not r)) ?rs)"
    by (simp add: validity_mask_rows [OF dn T] filter_concat length_concat comp_def
        filter_map)
  finally have lhs: "int (length (masked_insert_items trajectory dones))
      = int n + sum_list (map (\<lambda>r. int (length (filter logical_not r))) ?rs)"
    by (simp add: comp_def flip: sum_list_of_nat)
  have "sum_list (compute_episode_length dones)
      = sum_list (map (\<lambda>i. sum_list (map (\<lambda>r. 1 - float_to_int (r ! i)) ?rs)) [0..<n])
          + int n"
    using d r by (simp add: compute_episode_length_def sum_list_addf sum_list_ones)
  also have "sum_list (map (\<lambda>i. sum_list (map (\<lambda>r. 1 - float_to_int (r ! i)) ?rs)) [0..<n])
      = sum_list (map (\<lambda>r. sum_list (map (\<lambda>i. 1 - float_to_int (r ! i)) [0..<n])) ?rs)"
    by (rule sum_list_swap)
  also have "\<dots> = sum_list (map (\<lambda>r. int (length (filter logical_not r))) ?rs)"
  proof (rule arg_cong [where f = sum_list], rule map_cong [OF refl])
    fix r assume "r \<in> set ?rs"
    from rows [OF this] have ln: "length r = n" and f: "\<forall>d \<in> set r. d = 0 \<or> d = 1"
      by simp_all
    have "map (\<lambda>i. 1 - float_to_int (r ! i)) [0..<n] = map (\<lambda>d. 1 - float_to_int d) r"
      using ln by (simp add: list_eq_iff_nth_eq)
    then show "sum_list (map (\<lambda>i. 1 - float_to_int (r ! i)) [0..<n])
        = int (length (filter logical_not r))"
      using zero_flags_sum [OF f] by simp
  qed
  finally show ?thesis using lhs by simp
qed

lemma masked_items_append:
  "length xs = length ms \<Longrightarrow>
     masked_items (xs @ ys) (ms @ ns) = masked_items xs ms @ masked_items ys ns"
  by (simp add: masked_items_def)

lemma masked_items_concat:
  "list_all2 (\<lambda>x m. length x = length m) X M \<Longrightarrow>
     masked_items (concat X) (concat M) = concat (map2 masked_items X M)"
proof (induction rule: list_all2_induct)
  case Nil
  then show ?case by (simp add: masked_items_def)
next
  case (Cons x xs y ys)
  then show ?case by (simp add: masked_items_append)
qed

lemma masked_items_nth:
  "length xs = length ms \<Longrightarrow>
     masked_items xs ms = map (nth xs) (filter (nth ms) [0..<length xs])"
proof (induction xs arbitrary: ms rule: rev_induct)
  case Nil
  then show ?case by (simp add: masked_items_def)
next
  case (snoc x xs)
  then obtain ms' m where ms: "ms = ms' @ [m]" and l: "length ms' = length xs"
    by (cases ms rule: rev_cases) auto
  have f: "filter (nth (ms' @ [m])) [0..<length xs] = filter (nth ms') [0..<length xs]"
    using l by (intro filter_cong) (auto simp: nth_append)
  have g: "map (nth (xs @ [x])) (filter (nth ms') [0..<length xs])
         = map (nth xs) (filter (nth ms') [0..<length xs])"
    by (intro map_cong) (auto simp: nth_append)
  have m_at: "(ms' @ [m]) ! length xs = m" using l by (metis nth_append_length)
  have lhs: "masked_items (xs @ [x]) (ms' @ [m])
      = map (nth xs) (filter (nth ms') [0..<length xs]) @ (if m then [x] else [])"
    using snoc.IH [of ms'] l by (simp add: masked_items_append) (simp add: masked_items_def)
  have rhs: "map (nth (xs @ [x])) (filter (nth (ms' @ [m])) [0..<length (xs @ [x])])
      = map (nth xs) (filter (nth ms') [0..<length xs]) @ (if m then [x] else [])"
    by (simp add: f g m_at)
  show ?case using lhs rhs ms by simp
qed

lemma zero_before:
  assumes mono: "\<forall>t. Suc t < length col \<longrightarrow> col ! t \<noteq> (0::real) \<longrightarrow> col ! Suc t \<noteq> 0"
      and "j < length col" and "col ! j = 0" and "i \<le> j"
  shows "col ! i = 0"
  using assms(4,2,3)
proof (induction rule: inc_induct)
  case base
  then show ?case by simp
next
  case (step k)
  then have "col ! Suc k = 0" by simp
  with mono step show ?case by (metis less_le_trans not_less_eq Suc_le_eq le_less)
qed

lemma zero_prefix:
  assumes "\<forall>t. Suc t < length col \<longrightarrow> col ! t \<noteq> (0::real) \<longrightarrow> col ! Suc t \<noteq> 0"
      and "t < length col"
  shows "logical_not (col ! t) \<longleftrightarrow> t < length (filter logical_not col)"
  using assms
proof (induction col arbitrary: t rule: rev_induct)
  case Nil
  then show ?case by simp
next
  case (snoc x col)
  have mono': "\<forall>t. Suc t < length col \<longrightarrow> col ! t \<noteq> 0 \<longrightarrow> col ! Suc t \<noteq> 0"
  proof (intro allI impI)
    fix s assume s: "Suc s < length col" and nz: "col ! s \<noteq> 0"
    from snoc.prems(1) [rule_format, of s] s nz show "col ! Suc s \<noteq> 0"
      by (simp add: nth_append)
  qed
  show ?case
  proof (cases "x = 0")
    case True
    have all0: "\<And>i. i < length col \<Longrightarrow> col ! i = 0"
    proof -
      fix i assume i: "i < length col"
      have "(col @ [x]) ! i = 0"
        by (rule zero_before [OF snoc.prems(1), of "length col"]) (use True i in auto)
      then show "col ! i = 0" using i by (simp add: nth_append)
    qed
    then have "filter logical_not col = col"
      by (auto simp: filter_id_conv in_set_conv_nth logical_not_def)
    then have fl: "filter logical_not (col @ [x]) = col @ [x]"
      using True by (simp add: logical_not_def [of 0])
    have lhs: "logical_not ((col @ [x]) ! t)"
      using all0 True snoc.prems(2)
      by (cases "t < length col") (auto simp: nth_append logical_not_def)
    show ?thesis using lhs snoc.prems(2) by (simp only: fl)
  next
    case False
    show ?thesis
    proof (cases "t < length col")
      case True
      with snoc.IH [OF mono' True] False show ?thesis
        by (simp add: nth_append logical_not_def)
    next
      case False
      with snoc.prems(2) have "t = length col" by simp
      moreover have "length (filter logical_not col) \<le> length col" by simp
      moreover have "\<not> logical_not x" using \<open>x \<noteq> 0\<close> by (simp add: logical_not_def)
      ultimately show ?thesis by (simp add: not_less)
    qed
  qed
qed

lemma validity_mask_nth:
  assumes dn: "has_shape T n dones" and ep: "episodic_dones dones"
      and t: "t < T" and i: "i < n"
  shows "validity_mask dones ! t ! i \<longleftrightarrow> int t < compute_episode_length dones ! i"
proof -
  let ?rs = "butlast dones"
  let ?col = "map (\<lambda>r. r ! i) ?rs"
  from dn t obtain row rest where d: "dones = row # rest" and r: "length row = n"
    by (cases dones) (auto simp: has_shape_def)
  have T: "0 < T" using t by simp
  have lenrs: "length ?rs = T - 1" using dn by (simp add: has_shape_def)
  have rows: "\<And>s. s < T \<Longrightarrow> length (dones ! s) = n"
    using dn by (simp add: has_shape_def)
  have flags: "\<forall>d \<in> set ?col. d = 0 \<or> d = 1"
  proof
    fix d assume "d \<in> set ?col"
    then obtain r where r: "r \<in> set ?rs" and dr: "d = r ! i" by auto
    from r have "r \<in> set dones" by (rule in_set_butlastD)
    moreover from this dn have "length r = n" by (simp add: has_shape_def)
    ultimately show "d = 0 \<or> d = 1" using ep i dr by (auto simp: episodic_dones_def)
  qed
  have L: "compute_episode_length dones ! i = int (length (filter logical_not ?col)) + 1"
  proof -
    have "compute_episode_length dones ! i
        = sum_list (map (\<lambda>d. 1 - float_to_int d) ?col) + 1"
      using d r i by (simp add: compute_episode_length_def comp_def)
    then show ?thesis using zero_flags_sum [OF flags] by simp
  qed
  have mono: "\<forall>s. Suc s < length ?col \<longrightarrow> ?col ! s \<noteq> 0 \<longrightarrow> ?col ! Suc s \<noteq> 0"
  proof (intro allI impI)
    fix s assume s: "Suc s < length ?col" and nz: "?col ! s \<noteq> 0"
    then have s': "Suc s < T" and s'': "Suc s < length ?rs" "s < length ?rs"
      using lenrs by simp_all
    have a: "?col ! s = dones ! s ! i" "?col ! Suc s = dones ! Suc s ! i"
      using s'' by (simp_all add: nth_butlast)
    have "Suc s < length dones" using s' dn by (simp add: has_shape_def)
    moreover have "i < length (dones ! s)" using rows [of s] s' i by simp
    ultimately have "dones ! Suc s ! i \<noteq> 0"
      using ep nz a by (auto simp: episodic_dones_def)
    then show "?col ! Suc s \<noteq> 0" using a by simp
  qed
  show ?thesis
  proof (cases t)
    case 0
    then show ?thesis using i L by (simp add: validity_mask_rows [OF dn T])
  next
    case (Suc s)
    with t lenrs have s: "s < length ?col" by simp
    have "length (?rs ! s) = n"
      using s lenrs rows [of s] by (simp add: nth_butlast)
    then have "validity_mask dones ! t ! i = logical_not (?col ! s)"
      using Suc s i by (simp add: validity_mask_rows [OF dn T])
    also have "\<dots> \<longleftrightarrow> s < length (filter logical_not ?col)"
      by (rule zero_prefix [OF mono s])
    finally show ?thesis using L Suc by (simp only:) linarith
  qed
qed

lemma masked_insert_items_content:
  assumes tr: "has_shape T n trajectory" and dn: "has_shape T n dones"
      and ep: "episodic_dones dones" and T: "0 < T"
  shows "masked_insert_items trajectory dones
       = concat (map (\<lambda>t. map (\<lambda>i. trajectory ! t ! i)
                   (filter (\<lambda>i. int t < compute_episode_length dones ! i) [0..<n]))
                 [0..<T])"
proof -
  let ?m = "validity_mask dones"
  have ms: "has_shape T n ?m" by (rule has_shape_validity_mask [OF dn T])
  have lens: "length trajectory = T" "length ?m = T"
    and rows: "\<And>t. t < T \<Longrightarrow> length (trajectory ! t) = n \<and> length (?m ! t) = n"
    using tr ms by (simp_all add: has_shape_def)
  have "list_all2 (\<lambda>x m. length x = length m) trajectory ?m"
    using lens rows by (simp add: list_all2_conv_all_nth)
  then have "masked_insert_items trajectory dones = concat (map2 masked_items trajectory ?m)"
    by (simp add: masked_insert_items_def collapse_def masked_items_concat)
  also have "map2 masked_items trajectory ?m
      = map (\<lambda>t. masked_items (trajectory ! t) (?m ! t)) [0..<T]"
    using lens by (intro nth_equalityI) simp_all
  also have "\<dots> = map (\<lambda>t. map (\<lambda>i. trajectory ! t ! i)
                   (filter (\<lambda>i. int t < compute_episode_length dones ! i) [0..<n])) [0..<T]"
  proof (rule map_cong [OF refl])
    fix t assume "t \<in> set [0..<T]"
    then have t: "t < T" by simp
    from rows [OF t] have l: "length (trajectory ! t) = n" "length (?m ! t) = n" by simp_all
    have "filter (nth (?m ! t)) [0..<n]
        = filter (\<lambda>i. int t < compute_episode_length dones ! i) [0..<n]"
      by (rule filter_cong [OF refl]) (simp add: validity_mask_nth [OF dn ep t])
    then show "masked_items (trajectory ! t) (?m ! t)
        = map (\<lambda>i. trajectory ! t ! i)
            (filter (\<lambda>i. int t < compute_episode_length dones ! i) [0..<n])"
      using masked_items_nth [of "trajectory ! t" "?m ! t"] l by simp
  qed
  finally show ?thesis .
qed

text \<open>
  C2. No padding is written. Per-env concatenation (ERL-Origin): for a rollout tensor of
  \<open>T\<close> rows and one column per (individual, env) pair, with episode lengths \<open>L[pop, env]\<close>
  between 0 and \<open>T\<close>, \<open>_add_to_replay_buffer\<close> hands the buffer a batch of exactly
  \<open>sum(L)\<close> transitions: for every column \<open>i\<close>, the timesteps below the episode length of
  \<open>i\<close>, and nothing else. Masked insert (CEMRL-OpenES): for episodic done flags, the
  elements flagged by the mask are exactly the transitions \<open>(t, i)\<close> with \<open>t\<close> below the
  episode length of column \<open>i\<close> (as \<open>compute_episode_length\<close> gives it), and their number
  is the sum of the episode lengths.
\<close>

theorem no_padding_insert:
  "(has_shape T (length (flatten_lengths L)) x \<and> flatten_lengths L \<noteq> []
      \<and> (\<forall>l \<in> set (flatten_lengths L). 0 \<le> l \<and> l \<le> int T)
    \<longrightarrow> (\<exists>b. concat_valid (flatten_lengths L) x = Some b
          \<and> add_to_replay_buffer rb_add rb x (flatten_lengths L) = Some (rb_add rb b)
          \<and> int (length b) = sum_list (map sum_list L)
          \<and> b = concat (map (\<lambda>i. map (\<lambda>t. x ! t ! i) [0..<nat (flatten_lengths L ! i)])
                     [0..<length (flatten_lengths L)])))
   \<and> (has_shape T n trajectory \<and> has_shape T n dones \<and> 0 < T \<and> episodic_dones dones
    \<longrightarrow> int (length (masked_insert_items trajectory dones))
          = sum_list (compute_episode_length dones)
      \<and> masked_insert_items trajectory dones
          = concat (map (\<lambda>t. map (\<lambda>i. trajectory ! t ! i)
                      (filter (\<lambda>i. int t < compute_episode_length dones ! i) [0..<n]))
                    [0..<T]))"
proof (intro conjI impI)
  assume h: "has_shape T (length (flatten_lengths L)) x \<and> flatten_lengths L \<noteq> []
      \<and> (\<forall>l \<in> set (flatten_lengths L). 0 \<le> l \<and> l \<le> int T)"
  let ?lens = "flatten_lengths L"
  let ?b = "concat (map (\<lambda>i. map (\<lambda>t. x ! t ! i) [0..<nat (?lens ! i)]) [0..<length ?lens])"
  from h have sh: "has_shape T (length ?lens) x" and ne: "?lens \<noteq> []"
    and rng: "\<forall>l \<in> set ?lens. 0 \<le> l \<and> l \<le> int T" by simp_all
  have c: "concat_valid ?lens x = Some ?b"
    by (rule concat_valid_content [OF sh refl ne rng])
  have "int (length ?b) = sum_list ?lens"
    by (rule concat_valid_length [OF refl]) (use rng in auto)
  then have l: "int (length ?b) = sum_list (map sum_list L)"
    by (simp add: flatten_lengths_def sum_list_concat_int)
  show "\<exists>b. concat_valid ?lens x = Some b
          \<and> add_to_replay_buffer rb_add rb x ?lens = Some (rb_add rb b)
          \<and> int (length b) = sum_list (map sum_list L)
          \<and> b = ?b"
    using c l by (simp add: add_to_replay_buffer_def)
next
  assume h: "has_shape T n trajectory \<and> has_shape T n dones \<and> 0 < T \<and> episodic_dones dones"
  then have tr: "has_shape T n trajectory" and dn: "has_shape T n dones" and T: "0 < T"
    and ep: "episodic_dones dones" by simp_all
  from ep have fl: "\<forall>row \<in> set dones. \<forall>d \<in> set row. d = 0 \<or> d = 1"
    by (simp add: episodic_dones_def)
  show "int (length (masked_insert_items trajectory dones))
          = sum_list (compute_episode_length dones)"
    by (rule masked_insert_items_length [OF tr dn T fl])
  show "masked_insert_items trajectory dones
          = concat (map (\<lambda>t. map (\<lambda>i. trajectory ! t ! i)
                      (filter (\<lambda>i. int t < compute_episode_length dones ! i) [0..<n]))
                    [0..<T])"
    by (rule masked_insert_items_content [OF tr dn ep T])
qed

lemma toy_grid_3_4: "toy_grid 3 4 =
   [[(0, 0), (0, 1), (0, 2), (0, 3)], [(1, 0), (1, 1), (1, 2), (1, 3)],
    [(2, 0), (2, 1), (2, 2), (2, 3)]]"
  by (simp add: toy_grid_def upt_rec)

lemma toy_grid_3_2: "toy_grid 3 2 = [[(0, 0), (0, 1)], [(1, 0), (1, 1)], [(2, 0), (2, 1)]]"
  by (simp add: toy_grid_def upt_rec)

lemma episodic_toy_dones: "episodic_dones toy_dones"
proof -
  have "\<And>t i. Suc t < 3 \<Longrightarrow> i < length (toy_dones ! t) \<Longrightarrow> toy_dones ! t ! i \<noteq> 0
          \<Longrightarrow> toy_dones ! Suc t ! i \<noteq> 0"
  proof -
    fix t i :: nat assume "Suc t < 3"
    then have "t = 0 \<or> t = 1" by auto
    moreover assume "i < length (toy_dones ! t)" "toy_dones ! t ! i \<noteq> 0"
    ultimately show "toy_dones ! Suc t ! i \<noteq> 0"
      by (auto simp: toy_dones_def less_Suc_eq numeral_2_eq_2)
  qed
  then show ?thesis by (auto simp: episodic_dones_def toy_dones_def)
qed

theorem no_padding_insert_witness:
  "(\<exists>b. add_to_replay_buffer (@) [] (toy_grid 3 4) (flatten_lengths [[1, 3], [2, 3]]) = Some b
       \<and> int (length b) = 1 + 3 + 2 + 3
       \<and> b = [(0, 0), (0, 1), (1, 1), (2, 1), (0, 2), (1, 2), (0, 3), (1, 3), (2, 3)])
   \<and> compute_episode_length toy_dones = [2, 3]
   \<and> int (length (masked_insert_items (toy_grid 3 2) toy_dones)) = 2 + 3
   \<and> masked_insert_items (toy_grid 3 2) toy_dones = [(0, 0), (0, 1), (1, 0), (1, 1), (2, 1)]"
proof -
  have a: "has_shape 3 (length (flatten_lengths [[1, 3], [2, 3]])) (toy_grid 3 4)
      \<and> flatten_lengths [[1, 3], [2, 3]] \<noteq> []
      \<and> (\<forall>l \<in> set (flatten_lengths [[1, 3], [2, 3]]). 0 \<le> l \<and> l \<le> int 3)"
    by (simp add: has_shape_def flatten_lengths_def toy_grid_3_4)
  have b: "has_shape 3 2 (toy_grid 3 2) \<and> has_shape 3 2 toy_dones \<and> (0::nat) < 3
      \<and> episodic_dones toy_dones"
    by (simp add: has_shape_def toy_grid_3_2 episodic_toy_dones) (simp add: toy_dones_def)
  have L: "compute_episode_length toy_dones = [2, 3]"
    by (simp add: compute_episode_length_def toy_dones_def float_to_int_def upt_rec)
  note t = no_padding_insert [where T = 3 and L = "[[1, 3], [2, 3]]" and x = "toy_grid 3 4"
      and rb_add = "(@)" and rb = "[]" and n = 2 and trajectory = "toy_grid 3 2"
      and dones = toy_dones]
  from t [THEN conjunct1, rule_format, OF a] t [THEN conjunct2, rule_format, OF b] L
  show ?thesis
    by (auto simp: flatten_lengths_def toy_grid_3_4 toy_grid_3_2 upt_rec)
qed

section \<open>Properties of the ERL-Origin step\<close>

lemma unat_succ_le: "unat ((x :: 32 word) + 1) \<le> unat x + 1"
proof -
  have "unat (x + 1) = (unat x + 1) mod 2 ^ 32"
    by (simp add: unat_word_ariths)
  then show ?thesis by simp
qed

text \<open>For a Python int within the \<open>uint32\<close> range the two operations are those on integers.\<close>

lemma jnp_greater_uint32_nonneg:
  "0 \<le> n \<Longrightarrow> jnp_greater_uint32 x n = (n < int (unat x))"
  by (simp add: jnp_greater_uint32_def)

lemma jnp_remainder_uint32_pos:
  assumes "0 < n" and "n < 2 ^ 32"
  shows "(jnp_remainder_uint32 x n = 0) = (int (unat x) mod n = 0)"
proof -
  let ?d = "word_of_int n :: 32 word"
  have ui: "uint ?d = n"
    using assms by (simp add: uint_word_of_int take_bit_eq_mod)
  have nz: "?d \<noteq> 0" using ui assms by auto
  have "(x mod ?d = 0) = (uint (x mod ?d) = 0)" by (simp add: uint_0_iff)
  also have "\<dots> = (uint x mod n = 0)" by (simp add: uint_mod ui)
  also have "\<dots> = (int (unat x) mod n = 0)" by simp
  finally show ?thesis using nz by (simp add: jnp_remainder_uint32_def Let_def)
qed

text \<open>Outside it they are not: the remainder by 0 is 0, and no counter is greater than -1.\<close>

lemma jnp_uint32_out_of_range:
  "jnp_remainder_uint32 x 0 = 0" "\<not> jnp_greater_uint32 x (- 1)"
  by (simp_all add: jnp_remainder_uint32_def jnp_greater_uint32_def not_less)

lemma list6:
  "length xs = 6 \<Longrightarrow> \<exists>a b c d e f. xs = [a, b, c, d, e, f]"
proof -
  assume "length xs = 6"
  then have "length xs = Suc (Suc (Suc (Suc (Suc (Suc 0)))))" by simp
  then show ?thesis by (simp add: length_Suc_conv) blast
qed

lemma add_to_replay_buffer_Some:
  "lens \<noteq> [] \<Longrightarrow> \<exists>b. concat_valid lens x = Some b
      \<and> add_to_replay_buffer rb_add rb x lens = Some (rb_add rb b)"
  by (simp add: add_to_replay_buffer_def concat_valid_def)

text \<open>
  C3. ERL-Origin warm-up. For every state whose iteration number (the incoming counter
  plus one) is at most \<open>warmup_iters\<close> (and whose replay buffer is present, the key split
  and the EC rollout being well formed), \<open>step\<close> returns, makes no RL rollout and no TD3
  update (its calls are the EC rollout, the buffer append and the EC tell only), returns
  the agent state and the optimizer state of its input, leaves \<open>rl_sampled_timesteps\<close>
  unchanged, and emits no TD3 metric: \<open>rl_metrics\<close> and the RL episode metrics stay
  \<open>None\<close>.
\<close>

theorem ERLWorkflow_step_warmup:
  assumes warm: "int (unat (iterations (metrics st))) + 1 \<le> warmup_iters config"
      and rb: "replay_buffer_state st = Some rb0"
      and sp: "length (random_split ops (key st) 6) = 6"
      and ne: "\<forall>k. flatten_lengths (episode_lengths (fst (ERLWorkflow_ec_rollout ops config
                  (ERLWorkflow_pop_agent_state (agent_state st) (pop (ec_opt_state st))) k)))
                \<noteq> []"
  shows "\<exists>calls tm st'. ERLWorkflow_step ops config st = Some (calls, tm, st')
      \<and> agent_state st' = agent_state st \<and> opt_state st' = opt_state st
      \<and> rl_sampled_timesteps (metrics st') = rl_sampled_timesteps (metrics st)
      \<and> rl_metrics tm = None \<and> rl_episode_returns tm = None \<and> rl_episode_lengths tm = None
      \<and> calls = [Call_ec_rollout, Call_add_to_replay_buffer, Call_ec_update]"
proof -
  from list6 [OF sp] obtain k1 k2 k3 k4 k5 k6 where
    ks: "random_split ops (key st) 6 = [k1, k2, k3, k4, k5, k6]" by blast
  have w: "\<not> warmup_iters config < int (unat (iterations (metrics st) + 1))"
    using warm unat_succ_le [of "iterations (metrics st)"] by linarith
  have "0 \<le> warmup_iters config" using warm by linarith
  with w have w': "\<not> jnp_greater_uint32 (iterations (metrics st) + 1) (warmup_iters config)"
    by (simp only: jnp_greater_uint32_nonneg) simp
  let ?pas = "ERLWorkflow_pop_agent_state (agent_state st) (pop (ec_opt_state st))"
  obtain em tr where er: "ERLWorkflow_ec_rollout ops config ?pas k3 = (em, tr)"
    by (cases "ERLWorkflow_ec_rollout ops config ?pas k3")
  have "flatten_lengths (episode_lengths em) \<noteq> []"
    using ne [rule_format, of k3] er by simp
  from add_to_replay_buffer_Some [OF this, of tr "replay_buffer_add ops" rb0] obtain b where
    ad: "add_to_replay_buffer (replay_buffer_add ops) rb0 tr (flatten_lengths (episode_lengths em))
          = Some (replay_buffer_add ops rb0 b)" by blast
  show ?thesis
    unfolding ERLWorkflow_step_def Let_def rb ks
    by (simp add: er ad w')
qed

lemma toy_split_6: "toy_split k 6 = [10 * k, 10 * k + 1, 10 * k + 2, 10 * k + 3, 10 * k + 4, 10 * k + 5]"
  by (simp add: toy_split_def upt_rec)

lemma toy_ec_rollout:
  "ERLWorkflow_ec_rollout toy_origin_ops (toy_config w j)
     (ERLWorkflow_pop_agent_state (agent_state (toy_state it))
        (pop (ec_opt_state (toy_state it)))) k
   = (\<lparr>episode_returns = [[3, 5], [1, 3], [2, 4]], episode_lengths = [[1, 2], [1, 2], [1, 2]]\<rparr>,
      [[3, 103, 1, 101, 2, 102], [3, 103, 1, 101, 2, 102]])"
  by (simp add: ERLWorkflow_ec_rollout_def toy_origin_ops_def ERLWorkflow_pop_agent_state_def
      toy_state_def)

theorem ERLWorkflow_step_warmup_witness:
  "\<exists>calls tm st'. ERLWorkflow_step toy_origin_ops (toy_config 2 1) (toy_state 0)
        = Some (calls, tm :: unit POPTrainMetric, st')
      \<and> agent_state st' = toy_agent_state \<and> opt_state st' = 0
      \<and> rl_sampled_timesteps (metrics st') = 0 \<and> iterations (metrics st') = 1
      \<and> rl_metrics tm = None
      \<and> calls = [Call_ec_rollout, Call_add_to_replay_buffer, Call_ec_update]"
proof -
  have warm: "int (unat (iterations (metrics (toy_state 0)))) + 1 \<le> warmup_iters (toy_config 2 1)"
    by (simp add: toy_state_def toy_metrics_def toy_config_def)
  have rb: "replay_buffer_state (toy_state 0) = Some []" by (simp add: toy_state_def)
  have sp: "length (random_split toy_origin_ops (key (toy_state 0)) 6) = 6"
    by (simp add: toy_origin_ops_def toy_split_def)
  have ne: "\<forall>k. flatten_lengths (episode_lengths (fst (ERLWorkflow_ec_rollout toy_origin_ops
                  (toy_config 2 1)
                  (ERLWorkflow_pop_agent_state (agent_state (toy_state 0))
                     (pop (ec_opt_state (toy_state 0)))) k))) \<noteq> []"
    by (simp only: toy_ec_rollout) (simp add: flatten_lengths_def)
  from ERLWorkflow_step_warmup [OF warm rb sp ne] obtain calls tm st' where
    s: "ERLWorkflow_step toy_origin_ops (toy_config 2 1) (toy_state 0)
          = Some (calls, tm :: unit POPTrainMetric, st')"
    and f: "agent_state st' = agent_state (toy_state 0)" "opt_state st' = opt_state (toy_state 0)"
      "rl_sampled_timesteps (metrics st') = rl_sampled_timesteps (metrics (toy_state 0))"
      "rl_metrics tm = None"
      "calls = [Call_ec_rollout, Call_add_to_replay_buffer, Call_ec_update]"
    by blast
  have "iterations (metrics st') = 1"
    using s by (auto simp: ERLWorkflow_step_def Let_def toy_state_def toy_metrics_def
        split: option.splits list.splits prod.splits)
  with s f show ?thesis by (simp add: toy_state_def toy_metrics_def)
qed

lemma ERLWorkflow_step_rl_Some:
  assumes "ERLWorkflow_step_rl ops config st iters k4 k6 rb1 ec1 fs t1 e1 tm1 calls1
             = Some (calls, tm, ag, os, ec, rb, rlt, t2, e2)"
  shows "\<exists>rm rtr td3 n.
           ERLWorkflow_rl_rollout ops config (agent_state st) k4 = (rm, rtr)
         \<and> add_to_replay_buffer (replay_buffer_add ops) rb1 rtr
               (flatten_lengths (episode_lengths rm)) = Some rb
         \<and> rlt = word_of_int (sum_list (flatten_lengths (episode_lengths rm)))
         \<and> ERLWorkflow_rl_update ops config (agent_state st) (opt_state st) rb n k6
               = Some (td3, ag, os)
         \<and> rl_metrics tm = Some td3
         \<and> (if jnp_remainder_uint32 iters (rl_injection_interval config) = 0
             then ERLWorkflow_rl_injection config ag ec1 fs = Some ec
                \<and> calls = calls1 @ [Call_rl_rollout, Call_add_to_replay_buffer,
                                      Call_rl_update, Call_rl_injection]
             else ec = ec1
                \<and> calls = calls1 @ [Call_rl_rollout, Call_add_to_replay_buffer,
                                      Call_rl_update])"
proof -
  obtain rm rtr where rr: "ERLWorkflow_rl_rollout ops config (agent_state st) k4 = (rm, rtr)"
    by (cases "ERLWorkflow_rl_rollout ops config (agent_state st) k4")
  show ?thesis
    using assms unfolding ERLWorkflow_step_rl_def Let_def rr
    by (auto split: option.splits if_splits prod.splits)
qed

lemma ERLWorkflow_step_Some:
  assumes "ERLWorkflow_step ops config st = Some (calls, tm, st')"
  shows "\<exists>rb0 k1 k2 k3 k4 k5 k6 em tr rb1.
           replay_buffer_state st = Some rb0
         \<and> random_split ops (key st) 6 = [k1, k2, k3, k4, k5, k6]
         \<and> ERLWorkflow_ec_rollout ops config
               (ERLWorkflow_pop_agent_state (agent_state st) (pop (ec_opt_state st))) k3
               = (em, tr)
         \<and> add_to_replay_buffer (replay_buffer_add ops) rb0 tr
               (flatten_lengths (episode_lengths em)) = Some rb1
         \<and> iterations (metrics st') = iterations (metrics st) + 1
         \<and> (if jnp_greater_uint32 (iterations (metrics st) + 1) (warmup_iters config)
             then \<exists>tm2 rb2 rlt t2 e2.
                    ERLWorkflow_step_rl ops config st (iterations (metrics st) + 1) k4 k6 rb1
                      (ERLWorkflow_ec_update ops (ec_opt_state st) (pop (ec_opt_state st))
                         (map mean (episode_returns em)))
                      (map mean (episode_returns em))
                      (0 + word_of_int (sum_list (flatten_lengths (episode_lengths em))))
                      (0 + word_of_nat (episodes_for_fitness config * pop_size config))
                      \<lparr>rb_size = 0,
                       pop_episode_returns = map mean (episode_returns em),
                       pop_episode_lengths =
                         map (\<lambda>r. mean (map real_of_int r)) (episode_lengths em),
                       rl_episode_returns = None, rl_episode_lengths = None,
                       rl_metrics = None, per_iter_time_cost = 0, ec_info = None\<rparr>
                      [Call_ec_rollout, Call_add_to_replay_buffer, Call_ec_update]
                    = Some (calls, tm2, agent_state st', opt_state st', ec_opt_state st',
                            rb2, rlt, t2, e2)
                  \<and> replay_buffer_state st' = Some rb2
                  \<and> tm = tm2\<lparr>rb_size := get_buffer_size ops rb2\<rparr>
             else calls = [Call_ec_rollout, Call_add_to_replay_buffer, Call_ec_update]
                \<and> ec_opt_state st'
                    = ERLWorkflow_ec_update ops (ec_opt_state st) (pop (ec_opt_state st))
                        (map mean (episode_returns em))
                \<and> agent_state st' = agent_state st \<and> opt_state st' = opt_state st
                \<and> replay_buffer_state st' = Some rb1 \<and> rl_metrics tm = None)"
proof -
  let ?pas = "ERLWorkflow_pop_agent_state (agent_state st) (pop (ec_opt_state st))"
  from assms obtain rb0 where rb: "replay_buffer_state st = Some rb0"
    by (cases "replay_buffer_state st") (auto simp: ERLWorkflow_step_def Let_def)
  from assms rb obtain k1 k2 k3 k4 k5 k6 where
    ks: "random_split ops (key st) 6 = [k1, k2, k3, k4, k5, k6]"
    by (auto simp: ERLWorkflow_step_def Let_def split: list.splits)
  obtain em tr where er: "ERLWorkflow_ec_rollout ops config ?pas k3 = (em, tr)"
    by (cases "ERLWorkflow_ec_rollout ops config ?pas k3")
  from assms obtain rb1 where ad: "add_to_replay_buffer (replay_buffer_add ops) rb0 tr
               (flatten_lengths (episode_lengths em)) = Some rb1"
    unfolding ERLWorkflow_step_def Let_def rb ks
    by (cases "add_to_replay_buffer (replay_buffer_add ops) rb0 tr
               (flatten_lengths (episode_lengths em))") (auto simp: er)
  show ?thesis
    using assms unfolding ERLWorkflow_step_def Let_def rb ks
    by (auto simp: er ad split: option.splits if_splits)
qed

lemma length_set_rows [simp]: "length (set_rows xs is ys) = length xs"
  by (induction xs "is" ys rule: set_rows.induct) auto

lemma set_rows_nth_other: "i \<notin> set is \<Longrightarrow> set_rows xs is ys ! i = xs ! i"
  by (induction xs "is" ys rule: set_rows.induct) auto

lemma set_rows_nth:
  "distinct is \<Longrightarrow> length is = length ys \<Longrightarrow> j < length is \<Longrightarrow> is ! j < length xs
     \<Longrightarrow> set_rows xs is ys ! (is ! j) = ys ! j"
proof (induction xs "is" ys arbitrary: j rule: set_rows.induct)
  case (3 xs i "is" y ys)
  show ?case
  proof (cases j)
    case 0
    with 3 show ?thesis by (simp add: set_rows_nth_other)
  next
    case (Suc m)
    with 3 show ?thesis by simp
  qed
qed auto

lemma argsort_length [simp]: "length (argsort fs) = length fs"
  by (simp add: argsort_def)

lemma argsort_distinct: "distinct (argsort fs)"
proof -
  let ?zs = "zip fs [0..<length fs]"
  have "distinct (map snd ?zs)" by simp
  then have "distinct ?zs" "inj_on snd (set ?zs)" unfolding distinct_map by blast+
  then have "distinct (map snd (sort_key fst ?zs))"
    by (simp add: distinct_map del: map_snd_zip)
  then show ?thesis by (simp add: argsort_def)
qed

lemma argsort_set: "set (argsort fs) = {0..<length fs}"
proof -
  have "set (argsort fs) = set (map snd (zip fs [0..<length fs]))"
    by (simp add: argsort_def del: map_snd_zip)
  then show ?thesis by simp
qed

lemma argsort_sorted: "sorted (map (nth fs) (argsort fs))"
proof -
  let ?zs = "zip fs [0..<length fs]"
  have "\<forall>z \<in> set (sort_key fst ?zs). fs ! snd z = fst z"
    by (auto simp: in_set_zip)
  then have "map (nth fs) (map snd (sort_key fst ?zs)) = map fst (sort_key fst ?zs)"
    by (simp add: comp_def)
  moreover have "sorted (map fst (sort_key fst ?zs))" by (rule sorted_sort_key)
  ultimately show ?thesis by (simp only: argsort_def)
qed

lemma argsort_lowest:
  assumes j: "j < length (take n (argsort fs))" and i: "i < length fs"
      and ni: "i \<notin> set (take n (argsort fs))"
  shows "fs ! (take n (argsort fs) ! j) \<le> fs ! i"
proof -
  from i have "i \<in> set (argsort fs)" by (simp add: argsort_set)
  then obtain m where m: "m < length fs" "argsort fs ! m = i"
    by (auto simp: in_set_conv_nth)
  have "n \<le> m"
  proof (rule ccontr)
    assume "\<not> n \<le> m"
    then have "take n (argsort fs) ! m = i" "m < length (take n (argsort fs))"
      using m by simp_all
    then have "i \<in> set (take n (argsort fs))" by (metis nth_mem)
    with ni show False by simp
  qed
  with j have jm: "j \<le> m" "j < length fs" by simp_all
  have "map (nth fs) (argsort fs) ! j \<le> map (nth fs) (argsort fs) ! m"
    using argsort_sorted [of fs] jm m by (simp add: sorted_iff_nth_mono del: nth_map)
  then show ?thesis using j jm m by simp
qed

subsection \<open>C4: injection cadence of the ERL-Origin workflow\<close>

text \<open>
  Claim C4, as the code has it, for a configuration with \<open>0 \<le> warmup_iters\<close> and
  \<open>0 < rl_injection_interval\<close>, both below \<open>2^31\<close> (outside this range the \<open>uint32\<close>
  arithmetic of the iteration counter differs from the arithmetic of integers: a negative
  \<open>warmup_iters\<close> is compared as a large unsigned number and an interval of 0 injects at
  every iteration). One call of \<open>ERLWorkflow.step\<close> with iteration number
  \<open>iterations + 1\<close> overwrites rows of the population exactly when the iteration number is
  beyond the warm-up (\<open>iterations > warmup_iters\<close>) and a multiple of
  \<open>rl_injection_interval\<close>. Then \<open>num_rl_agents\<close> rows are overwritten: their indices are
  the first \<open>num_rl_agents\<close> entries of the argsort of the mean episode returns of the
  population that was evaluated in this step (so no other index has a lower fitness), the
  rows are written into the population returned by the optimizer's \<open>tell\<close>, and the values
  written are the actor parameters the RL agents have after this step's RL update. In every
  other case the step performs no injection and the population is the one \<open>tell\<close> returned.
\<close>

theorem ERLWorkflow_injection_cadence:
  assumes s: "ERLWorkflow_step ops config st = Some (calls, tm, st')"
      and w: "0 \<le> warmup_iters config" "warmup_iters config < 2 ^ 31"
      and k: "0 < rl_injection_interval config" "rl_injection_interval config < 2 ^ 31"
  shows "let iters = iterations (metrics st) + 1;
             fs = map mean (episode_returns (fst (ERLWorkflow_ec_rollout ops config
                    (ERLWorkflow_pop_agent_state (agent_state st) (pop (ec_opt_state st)))
                    (random_split ops (key st) 6 ! 2))));
             ec1 = ec_optimizer_tell ops (ec_opt_state st) (pop (ec_opt_state st)) fs;
             worst = take (num_rl_agents config) (argsort fs);
             rl = actor_params (params (agent_state st'))
         in if warmup_iters config < int (unat iters)
               \<and> int (unat iters) mod rl_injection_interval config = 0
            then Call_rl_injection \<in> set calls
               \<and> length rl = num_rl_agents config \<and> length worst = num_rl_agents config
               \<and> ec_opt_state st' = ec1\<lparr>pop := set_rows (pop ec1) worst rl\<rparr>
               \<and> (\<forall>j. j < length worst \<and> worst ! j < length (pop ec1)
                     \<longrightarrow> pop (ec_opt_state st') ! (worst ! j) = rl ! j)
               \<and> (\<forall>i. i \<notin> set worst \<longrightarrow> pop (ec_opt_state st') ! i = pop ec1 ! i)
               \<and> (\<forall>j i. j < length worst \<and> i < length fs \<and> i \<notin> set worst
                     \<longrightarrow> fs ! (worst ! j) \<le> fs ! i)
            else Call_rl_injection \<notin> set calls \<and> ec_opt_state st' = ec1"
proof -
  let ?it = "iterations (metrics st) + 1"
  have gw: "jnp_greater_uint32 ?it (warmup_iters config)
            = (warmup_iters config < int (unat ?it))"
    by (rule jnp_greater_uint32_nonneg [OF w(1)])
  have "rl_injection_interval config < 2 ^ 32" using k(2) by simp
  from jnp_remainder_uint32_pos [OF k(1) this]
  have gk: "(jnp_remainder_uint32 ?it (rl_injection_interval config) = 0)
            = (int (unat ?it) mod rl_injection_interval config = 0)" .
  from ERLWorkflow_step_Some [OF s, unfolded gw]
  obtain rb0 k1 k2 k3 k4 k5 k6 em tr rb1 where
    rb0: "replay_buffer_state st = Some rb0"
    and ks: "random_split ops (key st) 6 = [k1, k2, k3, k4, k5, k6]"
    and er: "ERLWorkflow_ec_rollout ops config
               (ERLWorkflow_pop_agent_state (agent_state st) (pop (ec_opt_state st))) k3
               = (em, tr)"
    and br: "if warmup_iters config < int (unat ?it)
             then \<exists>tm2 rb2 rlt t2 e2.
                    ERLWorkflow_step_rl ops config st ?it k4 k6 rb1
                      (ERLWorkflow_ec_update ops (ec_opt_state st) (pop (ec_opt_state st))
                         (map mean (episode_returns em)))
                      (map mean (episode_returns em))
                      (0 + word_of_int (sum_list (flatten_lengths (episode_lengths em))))
                      (0 + word_of_nat (episodes_for_fitness config * pop_size config))
                      \<lparr>rb_size = 0,
                       pop_episode_returns = map mean (episode_returns em),
                       pop_episode_lengths =
                         map (\<lambda>r. mean (map real_of_int r)) (episode_lengths em),
                       rl_episode_returns = None, rl_episode_lengths = None,
                       rl_metrics = None, per_iter_time_cost = 0, ec_info = None\<rparr>
                      [Call_ec_rollout, Call_add_to_replay_buffer, Call_ec_update]
                    = Some (calls, tm2, agent_state st', opt_state st', ec_opt_state st',
                            rb2, rlt, t2, e2)
                  \<and> replay_buffer_state st' = Some rb2
                  \<and> tm = tm2\<lparr>rb_size := get_buffer_size ops rb2\<rparr>
             else calls = [Call_ec_rollout, Call_add_to_replay_buffer, Call_ec_update]
                \<and> ec_opt_state st'
                    = ERLWorkflow_ec_update ops (ec_opt_state st) (pop (ec_opt_state st))
                        (map mean (episode_returns em))
                \<and> agent_state st' = agent_state st \<and> opt_state st' = opt_state st
                \<and> replay_buffer_state st' = Some rb1 \<and> rl_metrics tm = None"
    by blast
  define fs where "fs = map mean (episode_returns em)"
  define ec1 where "ec1 = ec_optimizer_tell ops (ec_opt_state st) (pop (ec_opt_state st)) fs"
  define worst where "worst = take (num_rl_agents config) (argsort fs)"
  define rl where "rl = actor_params (params (agent_state st'))"
  have k3: "random_split ops (key st) 6 ! 2 = k3" using ks by simp
  have main: "if warmup_iters config < int (unat ?it)
               \<and> int (unat ?it) mod rl_injection_interval config = 0
            then Call_rl_injection \<in> set calls
               \<and> length rl = num_rl_agents config \<and> length worst = num_rl_agents config
               \<and> ec_opt_state st' = ec1\<lparr>pop := set_rows (pop ec1) worst rl\<rparr>
            else Call_rl_injection \<notin> set calls \<and> ec_opt_state st' = ec1"
  proof (cases "warmup_iters config < int (unat ?it)")
    case False
    with br show ?thesis by (simp add: ec1_def fs_def ERLWorkflow_ec_update_def)
  next
    case True
    with br obtain tm2 rb2 rlt t2 e2 where
      r: "ERLWorkflow_step_rl ops config st ?it k4 k6 rb1 ec1 fs
            (0 + word_of_int (sum_list (flatten_lengths (episode_lengths em))))
            (0 + word_of_nat (episodes_for_fitness config * pop_size config))
            \<lparr>rb_size = 0,
             pop_episode_returns = map mean (episode_returns em),
             pop_episode_lengths =
               map (\<lambda>r. mean (map real_of_int r)) (episode_lengths em),
             rl_episode_returns = None, rl_episode_lengths = None,
             rl_metrics = None, per_iter_time_cost = 0, ec_info = None\<rparr>
            [Call_ec_rollout, Call_add_to_replay_buffer, Call_ec_update]
          = Some (calls, tm2, agent_state st', opt_state st', ec_opt_state st',
                  rb2, rlt, t2, e2)"
      and tm2: "tm = tm2\<lparr>rb_size := get_buffer_size ops rb2\<rparr>"
      unfolding ec1_def fs_def ERLWorkflow_ec_update_def by auto
    from ERLWorkflow_step_rl_Some [OF r, unfolded gk] have inj:
      "if int (unat ?it) mod rl_injection_interval config = 0
       then ERLWorkflow_rl_injection config (agent_state st') ec1 fs = Some (ec_opt_state st')
          \<and> calls = [Call_ec_rollout, Call_add_to_replay_buffer, Call_ec_update]
                @ [Call_rl_rollout, Call_add_to_replay_buffer, Call_rl_update,
                   Call_rl_injection]
       else ec_opt_state st' = ec1
          \<and> calls = [Call_ec_rollout, Call_add_to_replay_buffer, Call_ec_update]
                @ [Call_rl_rollout, Call_add_to_replay_buffer, Call_rl_update]"
      by auto
    show ?thesis
    proof (cases "int (unat ?it) mod rl_injection_interval config = 0")
      case False
      with inj True show ?thesis by simp
    next
      case m: True
      with inj have i: "ERLWorkflow_rl_injection config (agent_state st') ec1 fs
            = Some (ec_opt_state st')"
        and c: "Call_rl_injection \<in> set calls" by simp_all
      from i have "length rl = num_rl_agents config \<and> length worst = num_rl_agents config
               \<and> ec_opt_state st' = ec1\<lparr>pop := set_rows (pop ec1) worst rl\<rparr>"
        unfolding ERLWorkflow_rl_injection_def tree_set_def Let_def rl_def worst_def
        by (auto split: if_splits)
      with c True m show ?thesis by simp
    qed
  qed
  have d: "distinct worst" unfolding worst_def by (rule distinct_take [OF argsort_distinct])
  have nth1: "\<And>j. length worst = length rl \<Longrightarrow> j < length worst
      \<Longrightarrow> worst ! j < length (pop ec1)
      \<Longrightarrow> set_rows (pop ec1) worst rl ! (worst ! j) = rl ! j"
    using d by (simp add: set_rows_nth)
  have low: "\<And>j i. j < length worst \<Longrightarrow> i < length fs \<Longrightarrow> i \<notin> set worst
      \<Longrightarrow> fs ! (worst ! j) \<le> fs ! i"
    unfolding worst_def by (rule argsort_lowest)
  have "if warmup_iters config < int (unat ?it)
               \<and> int (unat ?it) mod rl_injection_interval config = 0
            then Call_rl_injection \<in> set calls
               \<and> length rl = num_rl_agents config \<and> length worst = num_rl_agents config
               \<and> ec_opt_state st' = ec1\<lparr>pop := set_rows (pop ec1) worst rl\<rparr>
               \<and> (\<forall>j. j < length worst \<and> worst ! j < length (pop ec1)
                     \<longrightarrow> pop (ec_opt_state st') ! (worst ! j) = rl ! j)
               \<and> (\<forall>i. i \<notin> set worst \<longrightarrow> pop (ec_opt_state st') ! i = pop ec1 ! i)
               \<and> (\<forall>j i. j < length worst \<and> i < length fs \<and> i \<notin> set worst
                     \<longrightarrow> fs ! (worst ! j) \<le> fs ! i)
            else Call_rl_injection \<notin> set calls \<and> ec_opt_state st' = ec1"
    using main nth1 low by (auto simp: set_rows_nth_other)
  then show ?thesis
    unfolding Let_def k3 er fst_conv fs_def [symmetric] ec1_def [symmetric]
      worst_def [symmetric] rl_def [symmetric] .
qed

theorem ERLWorkflow_injection_cadence_witness:
  "\<exists>calls tm st'.
      ERLWorkflow_step toy_origin_ops (toy_config 0 1) (toy_state 0)
        = Some (calls, tm :: unit POPTrainMetric, st')
    \<and> Call_rl_injection \<in> set calls
    \<and> actor_params (params (agent_state st')) = [52]
    \<and> ec_opt_state st' = \<lparr>pop = [2, 52, 3], external_pop = [], ec_rest = ()\<rparr>"
proof -
  have "step_view (ERLWorkflow_step toy_origin_ops (toy_config 0 1) (toy_state 0))
      = Some ([Call_ec_rollout, Call_add_to_replay_buffer, Call_ec_update, Call_rl_rollout,
               Call_add_to_replay_buffer, Call_rl_update, Call_rl_injection],
              [2, 52, 3], [], [52],
              Some [3, 103, 103, 1, 101, 101, 2, 102, 102, 50, 50, 150, 150], 1)"
    by code_simp
  then obtain calls tm st' where
    s: "ERLWorkflow_step toy_origin_ops (toy_config 0 1) (toy_state 0)
          = Some (calls, tm :: unit POPTrainMetric, st')"
    and a: "actor_params (params (agent_state st')) = [52]"
    by (auto simp: step_view_def)
  have k: "0 < rl_injection_interval (toy_config 0 1)"
    "rl_injection_interval (toy_config 0 1) < 2 ^ 31"
    "0 \<le> warmup_iters (toy_config 0 1)" "warmup_iters (toy_config 0 1) < 2 ^ 31"
    by (simp_all add: toy_config_def)
  have i: "iterations (metrics (toy_state 0)) + 1 = 1"
    by (simp add: toy_state_def toy_metrics_def)
  have w: "warmup_iters (toy_config 0 1) = 0" "rl_injection_interval (toy_config 0 1) = 1"
    "num_rl_agents (toy_config 0 1) = 1"
    by (simp_all add: toy_config_def)
  have f: "mean [3, 5] = 4" "mean [1, 3] = 2" "mean [2, 4] = 3" by (simp_all add: mean_def)
  have g: "argsort [4, 2, 3 :: real] = [1, 2, 0]" by code_simp
  have t: "ec_optimizer_tell toy_origin_ops (ec_opt_state (toy_state 0))
             (pop (ec_opt_state (toy_state 0))) [4, 2, 3]
           = \<lparr>pop = [2, 1, 3], external_pop = [], ec_rest = ()\<rparr>"
    by (simp add: toy_origin_ops_def toy_state_def)
  from ERLWorkflow_injection_cadence [OF s k(3,4,1,2)]
  have "Call_rl_injection \<in> set calls
      \<and> ec_opt_state st' = \<lparr>pop = [2, 52, 3], external_pop = [], ec_rest = ()\<rparr>"
    unfolding Let_def toy_ec_rollout fst_conv
    by (simp add: i w f g t a)
  with s a show ?thesis by blast
qed

text \<open>
  During the warm-up an iteration whose number is a multiple of the interval injects nothing:
  with \<open>warmup_iters = 2\<close> and \<open>rl_injection_interval = 1\<close>, iteration 1 leaves the population
  as \<open>tell\<close> returned it, \<open>[2, 1, 3]\<close>, where an injection would have given \<open>[2, 50, 3]\<close>.
\<close>

theorem ERLWorkflow_injection_cadence_counterexample:
  "(1 :: int) mod rl_injection_interval (toy_config 2 1) = 0
 \<and> iterations (metrics (toy_state 0)) + 1 = 1
 \<and> step_view (ERLWorkflow_step toy_origin_ops (toy_config 2 1) (toy_state 0))
     = Some ([Call_ec_rollout, Call_add_to_replay_buffer, Call_ec_update],
             [2, 1, 3], [], [50], Some [3, 103, 103, 1, 101, 101, 2, 102, 102], 1)
 \<and> ERLWorkflow_rl_injection (toy_config 2 1) toy_agent_state
       \<lparr>pop = [2, 1, 3], external_pop = [], ec_rest = ()\<rparr> [4, 2, 3]
     = Some \<lparr>pop = [2, 50, 3], external_pop = [], ec_rest = ()\<rparr>"
  by code_simp

text \<open>
  Outside the range of the configuration: with \<open>warmup_iters = -1\<close> the step stays in the
  warm-up, and with \<open>rl_injection_interval = 0\<close> it injects.
\<close>

lemma ERLWorkflow_step_out_of_range_toy:
  "step_view (ERLWorkflow_step toy_origin_ops (toy_config (- 1) 1) (toy_state 0))
     = Some ([Call_ec_rollout, Call_add_to_replay_buffer, Call_ec_update],
             [2, 1, 3], [], [50], Some [3, 103, 103, 1, 101, 101, 2, 102, 102], 1)"
  "step_view (ERLWorkflow_step toy_origin_ops (toy_config 0 0) (toy_state 0))
     = Some ([Call_ec_rollout, Call_add_to_replay_buffer, Call_ec_update, Call_rl_rollout,
              Call_add_to_replay_buffer, Call_rl_update, Call_rl_injection],
             [2, 52, 3], [], [52],
             Some [3, 103, 103, 1, 101, 101, 2, 102, 102, 50, 50, 150, 150], 1)"
  by code_simp+

section \<open>The ERL-GA workflow\<close>

subsection \<open>C5: the optimizer update of the ERL-GA workflow\<close>




text \<open>
  With \<open>rl_injection_interval = 0\<close> the step takes the \<open>tell_external\<close> branch; and from a
  state whose external slot is empty the step fails, the two traced branches returning
  optimizer states of different shapes.
\<close>

lemma ERLGAWorkflow_step_out_of_range_toy:
  "ga_step_view (ERLGAWorkflow_step toy_ga_ops (toy_config 0 0) (toy_ga_state 0))
     = Some ([Call_ask, Call_ec_rollout, Call_rl_rollout, Call_rl_update,
              Call_rl_injection, Call_tell_external],
             Some [4, 2, 3], [51, 1, 2], [51], [51], Some [3, 1, 2, 50], Some 4)"
  "ga_step_view (ERLGAWorkflow_step toy_ga_ops (toy_config 0 1) (toy_state 0)) = None"
  by code_simp+

section \<open>The learn loops\<close>

lemma learn_loop_records:
  assumes "learn_loop step evaluate eval_now ca is st saves = Some (st', saves')"
      and "\<And>s tm s1. step s = Some (tm, s1) \<Longrightarrow> P s1"
      and "\<And>s. P s \<Longrightarrow> P (snd (evaluate s))"
  shows "\<exists>new. saves' = saves @ new \<and> map fst new = map (\<lambda>i. int i + 1) is
            \<and> (\<forall>r \<in> set new. \<exists>s. P s \<and> snd r = ca s)"
  using assms(1)
proof (induction "is" arbitrary: st saves)
  case Nil
  then show ?case by simp
next
  case (Cons i rest)
  from Cons.prems obtain tm st1 b where
    a: "step st = Some (tm, st1)" and e: "eval_now (int i + 1) = Some b"
    and r: "learn_loop step evaluate eval_now ca rest
              (if b then snd (evaluate st1) else st1)
              (saves @ [(int i + 1, ca (if b then snd (evaluate st1) else st1))])
            = Some (st', saves')"
    by (auto simp: Let_def split: option.splits)
  let ?s2 = "if b then snd (evaluate st1) else st1"
  have p: "P ?s2" using assms(2) [OF a] assms(3) by simp
  from Cons.IH [OF r] obtain new where
    n: "saves' = (saves @ [(int i + 1, ca ?s2)]) @ new"
       "map fst new = map (\<lambda>i. int i + 1) rest"
       "\<forall>r \<in> set new. \<exists>s. P s \<and> snd r = ca s"
    by blast
  show ?case
  proof (intro exI conjI)
    show "saves' = saves @ ((int i + 1, ca ?s2) # new)" using n by simp
    show "map fst ((int i + 1, ca ?s2) # new) = map (\<lambda>i. int i + 1) (i # rest)"
      using n by simp
    show "\<forall>r \<in> set ((int i + 1, ca ?s2) # new). \<exists>s. P s \<and> snd r = ca s"
      using n p by auto
  qed
qed

lemma ERLWorkflow_step_buffer:
  assumes "ERLWorkflow_step ops config st = Some (calls, tm, st')"
  shows "replay_buffer_state st' \<noteq> None"
  using ERLWorkflow_step_Some [OF assms] by (auto split: if_splits)

lemma ERLWorkflow_learn_records:
  assumes l: "ERLWorkflow_learn config step evaluate st = Some (st', saves)"
      and s: "\<And>s tm s1. step s = Some (tm, s1) \<Longrightarrow> P s1"
      and e: "\<And>s. P s \<Longrightarrow> P (snd (evaluate s))"
      and r: "(i, saved) \<in> set saves"
  shows "P saved"
proof -
  from l obtain "is" where
    ll: "learn_loop step evaluate (eval_interval_hit config) (\<lambda>state. state) is st []
         = Some (st', saves)"
    unfolding ERLWorkflow_learn_def Let_def by (auto split: if_splits)
  from learn_loop_records [OF ll, of P, OF s e] r show ?thesis by fastforce
qed

lemma ERLESWorkflow_learn_records:
  assumes l: "ERLESWorkflow_learn config step evaluate st = Some (st', saves)"
      and s: "\<And>s tm s1. step s = Some (tm, s1) \<Longrightarrow> P s1"
      and e: "\<And>s. P s \<Longrightarrow> P (snd (evaluate s))"
      and r: "(i, saved) \<in> set saves"
  shows "P saved"
proof -
  from l obtain "is" where
    ll: "learn_loop step evaluate (eval_interval_hit config) (\<lambda>state. state) is st []
         = Some (st', saves)"
    unfolding ERLESWorkflow_learn_def Let_def by (auto split: if_splits)
  from learn_loop_records [OF ll, of P, OF s e] r show ?thesis by fastforce
qed

lemma ERLGAWorkflow_learn_skips_replay_buffer:
  assumes l: "ERLGAWorkflow_learn config step evaluate st = Some (st', saves)"
      and n: "\<not> save_replay_buffer config"
      and r: "(i, saved) \<in> set saves"
  shows "replay_buffer_state saved = None"
proof -
  from l obtain en "is" where
    ll: "learn_loop step evaluate en (saved_state_of config) is st [] = Some (st', saves)"
    unfolding ERLGAWorkflow_learn_def Let_def by (auto split: if_splits)
  from learn_loop_records [OF ll, of "\<lambda>s. True"] r n show ?thesis
    by (fastforce simp: saved_state_of_def skip_replay_buffer_state_def)
qed

lemma ERLGAWorkflow_learn_toy:
  "learn_view (ERLGAWorkflow_learn (toy_config 2 1) (toy_ga_step (toy_config 2 1))
      toy_evaluate (toy_ga_state 0))
   = Some (Some [3, 1, 2, 50, 51, 1, 2, 51], [(1, None), (2, None)])"
  by code_simp

subsection \<open>C9: the record handed to the checkpoint manager\<close>

text \<open>
  Claim C9 fails for \<open>ERLWorkflow.learn\<close>: line 757 of erl_origin.py saves \<open>state\<close>, not the
  \<open>saved_state\<close> computed in the three lines before it. Every record handed to the checkpoint
  manager by the ERL-Origin learn loop contains a replay-buffer state, whatever
  \<open>save_replay_buffer\<close> is, provided \<open>evaluate\<close> leaves the replay-buffer state as it is (the
  method replaces the key only). \<open>ERLESWorkflow.learn\<close> has the same statement at line 409
  (\<open>ERLESWorkflow_learn_records\<close>); \<open>ERLGAWorkflow.learn\<close> saves \<open>saved_state\<close> and does what
  the claim says (\<open>ERLGAWorkflow_learn_skips_replay_buffer\<close>).
\<close>

theorem ERLWorkflow_learn_saves_replay_buffer:
  assumes l: "ERLWorkflow_learn config
                (\<lambda>s. map_option snd (ERLWorkflow_step ops config s)) evaluate st
              = Some (st', saves)"
      and e: "\<And>s. replay_buffer_state (snd (evaluate s)) = replay_buffer_state s"
      and r: "(i, saved) \<in> set saves"
  shows "replay_buffer_state saved \<noteq> None"
proof (rule ERLWorkflow_learn_records
    [OF l _ _ r, where P = "\<lambda>s. replay_buffer_state s \<noteq> None"])
  show "\<And>s tm s1. map_option snd (ERLWorkflow_step ops config s) = Some (tm, s1)
          \<Longrightarrow> replay_buffer_state s1 \<noteq> None"
    by (auto dest: ERLWorkflow_step_buffer)
  show "\<And>s. replay_buffer_state s \<noteq> None
          \<Longrightarrow> replay_buffer_state (snd (evaluate s)) \<noteq> None"
    by (simp add: e)
qed

theorem ERLWorkflow_learn_saves_replay_buffer_witness:
  "save_replay_buffer (toy_config 2 1) = False
 \<and> (\<exists>st' saves saved.
       ERLWorkflow_learn (toy_config 2 1) (toy_origin_step (toy_config 2 1)) toy_evaluate
          (toy_state 0) = Some (st', saves)
     \<and> (2, saved) \<in> set saves \<and> replay_buffer_state saved \<noteq> None)"
proof -
  have "learn_view (ERLWorkflow_learn (toy_config 2 1) (toy_origin_step (toy_config 2 1))
          toy_evaluate (toy_state 0))
      = Some (Some [3, 103, 103, 1, 101, 101, 2, 102, 102, 2, 102, 102, 1, 101, 101, 3,
                    103, 103],
              [(1, Some [3, 103, 103, 1, 101, 101, 2, 102, 102]),
               (2, Some [3, 103, 103, 1, 101, 101, 2, 102, 102, 2, 102, 102, 1, 101, 101,
                         3, 103, 103])])"
    by code_simp
  then obtain st' s1 saved where
    l: "ERLWorkflow_learn (toy_config 2 1) (toy_origin_step (toy_config 2 1)) toy_evaluate
          (toy_state 0) = Some (st', [(1, s1), (2, saved)])"
    by (auto simp: learn_view_def)
  have m: "(2 :: int, saved) \<in> set [(1, s1), (2, saved)]" by simp
  have e: "\<And>s. replay_buffer_state (snd (toy_evaluate s)) = replay_buffer_state s"
    by (simp add: toy_evaluate_def)
  have t: "toy_origin_step (toy_config 2 1)
         = (\<lambda>s. map_option snd (ERLWorkflow_step toy_origin_ops (toy_config 2 1) s))"
    by (rule ext) (simp add: toy_origin_step_def)
  from ERLWorkflow_learn_saves_replay_buffer [OF l [unfolded t] e m]
  have n: "replay_buffer_state saved \<noteq> None" .
  have "save_replay_buffer (toy_config 2 1) = False" by (simp add: toy_config_def)
  with l m n show ?thesis by blast
qed

section \<open>The order of the operations of a step\<close>

subsection \<open>C1: the order of the operations in the three workflows\<close>




end
